theory Spec2Isabelle
  imports Main "HOL-Library.Word" "HOL-Library.Multiset" "HOL-Library.Monad_Syntax"
begin

section \<open>The terminal front-end of fzf (src/terminal.go)\<close>

text \<open>
  A shallow embedding of \<^verbatim>\<open>src/terminal.go\<close>. Go's \<^verbatim>\<open>int\<close> is modelled as
  \<open>int\<close>: the quantities involved (cursor positions, rows, column widths, rune counts)
  are bounded by the sizes of the query, the list and the screen, far from 64 bits. A
  \<^verbatim>\<open>rune\<close> is a code point, an \<open>int\<close> as well. A Go \<^verbatim>\<open>string\<close> and a
  \<^verbatim>\<open>[]rune\<close> are both lists of runes; where the source counts the bytes of a string
  (\<^verbatim>\<open>len(t.prompt)\<close>, the indices returned by package regexp) the UTF-8 length is
  computed from the runes. A run-time panic (slice bounds, nil dereference, index out of
  range) is the value \<open>None\<close>.
\<close>

subsection \<open>Data\<close>

type_synonym rune = int
type_synonym gostring = "rune list"
type_synonym time = int

datatype actionType =
    actIgnore
  | actInvalid
  | actRune
  | actMouse
  | actBeginningOfLine
  | actAbort
  | actAccept
  | actBackwardChar
  | actBackwardDeleteChar
  | actBackwardWord
  | actClearScreen
  | actDeleteChar
  | actEndOfLine
  | actForwardChar
  | actForwardWord
  | actKillLine
  | actKillWord
  | actUnixLineDiscard
  | actUnixWordRubout
  | actYank
  | actBackwardKillWord
  | actSelectAll
  | actDeselectAll
  | actToggle
  | actToggleAll
  | actToggleDown
  | actToggleUp
  | actDown
  | actUp
  | actPageUp
  | actPageDown
  | actToggleSort
  | actPreviousHistory
  | actNextHistory
  | actExecute

datatype EventType =
    reqPrompt
  | reqInfo
  | reqList
  | reqRefresh
  | reqRedraw
  | reqClose
  | reqQuit

text \<open>
  Modelled from the spec: type \<^verbatim>\<open>Item\<close> is declared outside \<^verbatim>\<open>src/\<close>. The spec
  gives an item an identity key (\<^verbatim>\<open>item.index\<close>, a \<^verbatim>\<open>uint32\<close>), a display text
  (\<^verbatim>\<open>item.text\<close>), match offsets in code points (\<^verbatim>\<open>item.offsets\<close>, pairs of
  \<^verbatim>\<open>int32\<close>) and a backing text, which is what \<^verbatim>\<open>AsString\<close> and \<^verbatim>\<open>StringPtr\<close>
  give; \<open>item_origText = None\<close> says that the backing text is the display text.
\<close>

record Item =
  item_index :: "32 word"
  item_text :: gostring
  item_origText :: "gostring option"
  item_offsets :: "(int \<times> int) list"

definition AsString :: "Item \<Rightarrow> gostring" where
  "AsString item = (case item_origText item of Some s \<Rightarrow> s | None \<Rightarrow> item_text item)"

text \<open>\<^verbatim>\<open>selectedItem\<close>: the fields \<^verbatim>\<open>at\<close> and \<^verbatim>\<open>text\<close> of the source.\<close>

record selectedItem =
  sel_at :: time
  sel_text :: gostring

text \<open>
  \<^verbatim>\<open>Terminal\<close>. The fields \<^verbatim>\<open>reqBox\<close>, \<^verbatim>\<open>eventBox\<close>, \<^verbatim>\<open>mutex\<close>,
  \<^verbatim>\<open>initFunc\<close> and \<^verbatim>\<open>startChan\<close> are the concurrency scaffolding and have no
  counterpart here. \<^verbatim>\<open>sort\<close> and \<^verbatim>\<open>count\<close> are renamed, the names being taken.
  \<^verbatim>\<open>merger\<close> is the list of the items that \<^verbatim>\<open>Merger.Get\<close> enumerates.
  \<^verbatim>\<open>selected\<close> is a Go map; it is an association list with distinct keys whose
  order stands for the unspecified order in which Go iterates over the map.
  \<open>history\<close> is the state of the optional history collaborator, and \<open>clock\<close> counts the
  readings of \<^verbatim>\<open>time.Now()\<close> made so far.
\<close>

record 'h Terminal =
  inlineInfo :: bool
  prompt :: gostring
  reverse :: bool
  hscroll :: bool
  cx :: int
  cy :: int
  offset :: int
  yanked :: "rune list"
  input :: "rune list"
  multi :: bool
  sort_flag :: bool
  toggleSort :: bool
  expect :: "int list"
  keymap :: "int \<rightharpoonup> actionType"
  execmap :: "int \<rightharpoonup> gostring"
  pressed :: int
  printQuery :: bool
  history :: "'h option"
  cycle :: bool
  count_total :: int
  progress :: int
  reading :: bool
  merger :: "Item list"
  selected :: "(32 word \<times> selectedItem) list"
  suppress :: bool
  clock :: nat

text \<open>The fields of \<^verbatim>\<open>Options\<close> that \<^verbatim>\<open>NewTerminal\<close> reads.\<close>

record 'h Options =
  opt_InlineInfo :: bool
  opt_Prompt :: gostring
  opt_Reverse :: bool
  opt_Hscroll :: bool
  opt_Query :: gostring
  opt_Multi :: bool
  opt_Sort :: int
  opt_ToggleSort :: bool
  opt_Expect :: "int list"
  opt_Keymap :: "int \<rightharpoonup> actionType"
  opt_Execmap :: "int \<rightharpoonup> gostring"
  opt_PrintQuery :: bool
  opt_History :: "'h option"
  opt_Cycle :: bool

definition NewTerminal :: "'h Options \<Rightarrow> 'h Terminal" where
  "NewTerminal opts =
     (let input = opt_Query opts in
      \<lparr> inlineInfo = opt_InlineInfo opts,
        prompt = opt_Prompt opts,
        reverse = opt_Reverse opts,
        hscroll = opt_Hscroll opts,
        cx = int (length input),
        cy = 0,
        offset = 0,
        yanked = [],
        input = input,
        multi = opt_Multi opts,
        sort_flag = (opt_Sort opts > 0),
        toggleSort = opt_ToggleSort opts,
        expect = opt_Expect opts,
        keymap = opt_Keymap opts,
        execmap = opt_Execmap opts,
        pressed = 0,
        printQuery = opt_PrintQuery opts,
        history = opt_History opts,
        cycle = opt_Cycle opts,
        count_total = 0,
        progress = 0,
        reading = True,
        merger = [],
        selected = [],
        suppress = True,
        clock = 0 \<rparr>)"

subsection \<open>Helpers of package util\<close>

text \<open>
  Modelled from the spec: \<^verbatim>\<open>util.Constrain\<close>, \<^verbatim>\<open>util.Constrain32\<close>,
  \<^verbatim>\<open>util.Max\<close>, \<^verbatim>\<open>util.Max32\<close> and \<^verbatim>\<open>util.Min32\<close> are not in \<^verbatim>\<open>src/\<close>. The
  spec says that they clamp a value into a range and take the larger or the smaller of
  two numbers. Where the range is empty (\<open>mx < mn\<close>) the lower bound is tested first.
  \<^verbatim>\<open>vset\<close> and \<^verbatim>\<open>constrain\<close> clamp into \<open>[0, count - 1]\<close>, which is empty for
  the empty list only, \<open>[0, -1]\<close>: there no integer is below 0 and above \<open>-1\<close> at once,
  and testing the upper bound first gives the same results.
\<close>

definition Constrain :: "int \<Rightarrow> int \<Rightarrow> int \<Rightarrow> int" where
  "Constrain val mn mx = (if val < mn then mn else if val > mx then mx else val)"

text \<open>The \<^verbatim>\<open>int32\<close> variants compute the same on the offsets, which are far from 32
  bits; they are kept apart to follow the source.\<close>

definition Constrain32 :: "int \<Rightarrow> int \<Rightarrow> int \<Rightarrow> int" where
  "Constrain32 val mn mx = Constrain val mn mx"

definition Max32 :: "int \<Rightarrow> int \<Rightarrow> int" where
  "Max32 a b = (if a > b then a else b)"

definition Min32 :: "int \<Rightarrow> int \<Rightarrow> int" where
  "Min32 a b = (if a \<le> b then a else b)"

definition Between :: "int \<Rightarrow> int \<Rightarrow> int \<Rightarrow> bool" where
  "Between val mn mx = (val \<ge> mn \<and> val \<le> mx)"

subsection \<open>Slices\<close>

text \<open>
  The slice expression \<^verbatim>\<open>s[lo:hi]\<close>. Go panics when \<open>lo < 0\<close>, \<open>hi < lo\<close> or
  \<open>hi > cap(s)\<close>. Between \<^verbatim>\<open>len(s)\<close> and \<^verbatim>\<open>cap(s)\<close> Go returns whatever the
  backing array holds; the model has no backing array and counts \<open>hi > len(s)\<close> as the
  failure. \<^verbatim>\<open>append\<close> is \<open>@\<close>: where the source appends a slice of an array to a
  prefix of the same array, the copy is a \<^verbatim>\<open>memmove\<close>, which gives the concatenation of
  the two values read before the call.
\<close>

definition slice :: "'a list \<Rightarrow> int \<Rightarrow> int \<Rightarrow> 'a list option" where
  "slice s lo hi =
     (if 0 \<le> lo \<and> lo \<le> hi \<and> hi \<le> int (length s)
      then Some (take (nat (hi - lo)) (drop (nat lo) s))
      else None)"

definition len :: "'a list \<Rightarrow> int" where
  "len s = int (length s)"

definition copySlice :: "rune list \<Rightarrow> rune list" where
  "copySlice s = s"

subsection \<open>Viewport: \<^verbatim>\<open>maxItems\<close>, \<^verbatim>\<open>constrain\<close>, \<^verbatim>\<open>vset\<close>, \<^verbatim>\<open>vmove\<close>\<close>

text \<open>\<open>maxy\<close> is what \<^verbatim>\<open>C.MaxY()\<close> returns, the number of rows of the screen.\<close>

definition maxItems :: "int \<Rightarrow> 'h Terminal \<Rightarrow> int" where
  "maxItems maxy t = (if inlineInfo t then maxy - 1 else maxy - 2)"

definition constrain :: "int \<Rightarrow> 'h Terminal \<Rightarrow> 'h Terminal" where
  "constrain maxy t =
     (let count = int (length (merger t));
          height = maxItems maxy t;
          diffpos = cy t - offset t;
          t = t\<lparr>cy := Constrain (cy t) 0 (count - 1)\<rparr>;
          t = (if cy t > offset t + (height - 1) then t\<lparr>offset := cy t - (height - 1)\<rparr>
               else if offset t > cy t then t\<lparr>offset := cy t\<rparr>
               else t)
      in if count - offset t < height
         then (let t = t\<lparr>offset := max 0 (count - height)\<rparr>
               in t\<lparr>cy := Constrain (offset t + diffpos) 0 (count - 1)\<rparr>)
         else t)"

definition vset :: "int \<Rightarrow> 'h Terminal \<Rightarrow> bool \<times> 'h Terminal" where
  "vset pos t =
     (let t = t\<lparr>cy := Constrain pos 0 (int (length (merger t)) - 1)\<rparr>
      in (cy t = pos, t))"

definition vmove :: "int \<Rightarrow> 'h Terminal \<Rightarrow> 'h Terminal" where
  "vmove delta t =
     (let d = (if reverse t then delta * (- 1) else delta);
          dest = cy t + d;
          dest = (if cycle t
                  then (let mx = int (length (merger t)) - 1
                        in if dest > mx then (if cy t = mx then 0 else dest)
                           else if dest < 0 then (if cy t = 0 then mx else dest)
                           else dest)
                  else dest)
      in snd (vset dest t))"

subsection \<open>Display width\<close>

text \<open>
  \<open>rw\<close> is \<^verbatim>\<open>runewidth.RuneWidth\<close> of the library go-runewidth, a parameter. The Go
  remainder \<^verbatim>\<open>%\<close> truncates towards zero.
\<close>

definition go_rem :: "int \<Rightarrow> int \<Rightarrow> int" where
  "go_rem a b = sgn a * (\<bar>a\<bar> mod \<bar>b\<bar>)"

text \<open>
  \<^verbatim>\<open>runeWidth\<close> with the table \<^verbatim>\<open>_runeWidths\<close> that memoizes the library's answers:
  the function returns the width and the table.
\<close>

definition runeWidth_memo ::
  "(rune \<Rightarrow> int) \<Rightarrow> (rune \<rightharpoonup> int) \<Rightarrow> rune \<Rightarrow> int \<Rightarrow> int \<times> (rune \<rightharpoonup> int)" where
  "runeWidth_memo rw tab r prefixWidth =
     (if r = 9 then (8 - go_rem prefixWidth 8, tab)
      else (case tab r of
              Some w \<Rightarrow> (w, tab)
            | None \<Rightarrow> (let w = rw r in (w, tab(r \<mapsto> w)))))"

text \<open>
  The table is written only there, with the library's answer, so that it never holds
  anything else (lemma \<open>runeWidth_memo\<close> below) and \<^verbatim>\<open>runeWidth\<close> returns what the
  following function returns. The functions that call \<^verbatim>\<open>runeWidth\<close> are modelled on it.
\<close>

definition runeWidth :: "(rune \<Rightarrow> int) \<Rightarrow> rune \<Rightarrow> int \<Rightarrow> int" where
  "runeWidth rw r prefixWidth = (if r = 9 then 8 - go_rem prefixWidth 8 else rw r)"

definition displayWidth :: "(rune \<Rightarrow> int) \<Rightarrow> rune list \<Rightarrow> int" where
  "displayWidth rw runes = foldl (\<lambda>l r. l + runeWidth rw r l) 0 runes"

text \<open>The loop of \<^verbatim>\<open>trimRight\<close>: \<open>idx\<close> and \<open>l\<close> are its variables, the last argument
  is what remains of \<open>runes\<close> from \<open>idx\<close> on.\<close>

fun trimRight_loop ::
  "(rune \<Rightarrow> int) \<Rightarrow> rune list \<Rightarrow> int \<Rightarrow> nat \<Rightarrow> int \<Rightarrow> rune list \<Rightarrow> rune list \<times> int" where
  "trimRight_loop rw runes width idx l [] = (runes, 0)"
| "trimRight_loop rw runes width idx l (r # rs) =
     (let l = l + runeWidth rw r l
      in if idx > 0 \<and> l > width then (take idx runes, len runes - int idx)
         else trimRight_loop rw runes width (Suc idx) l rs)"

definition trimRight :: "(rune \<Rightarrow> int) \<Rightarrow> rune list \<Rightarrow> int \<Rightarrow> rune list \<times> int" where
  "trimRight rw runes width = trimRight_loop rw runes width 0 0 runes"

fun displayWidthWithLimit_loop ::
  "(rune \<Rightarrow> int) \<Rightarrow> int \<Rightarrow> int \<Rightarrow> int \<Rightarrow> rune list \<Rightarrow> int" where
  "displayWidthWithLimit_loop rw prefixWidth limit l [] = l"
| "displayWidthWithLimit_loop rw prefixWidth limit l (r # rs) =
     (let l = l + runeWidth rw r (l + prefixWidth)
      in if l > limit then l
         else displayWidthWithLimit_loop rw prefixWidth limit l rs)"

definition displayWidthWithLimit :: "(rune \<Rightarrow> int) \<Rightarrow> rune list \<Rightarrow> int \<Rightarrow> int \<Rightarrow> int" where
  "displayWidthWithLimit rw runes prefixWidth limit =
     displayWidthWithLimit_loop rw prefixWidth limit 0 runes"

text \<open>The loop of \<^verbatim>\<open>trimLeft\<close>, on \<open>runes\<close>, \<open>trimmed\<close> and \<open>currentWidth\<close>.\<close>

fun trimLeft_loop ::
  "(rune \<Rightarrow> int) \<Rightarrow> int \<Rightarrow> rune list \<Rightarrow> int \<Rightarrow> int \<Rightarrow> rune list \<times> int" where
  "trimLeft_loop rw width [] trimmed currentWidth = ([], trimmed)"
| "trimLeft_loop rw width (r # rs) trimmed currentWidth =
     (if currentWidth > width
      then trimLeft_loop rw width rs (trimmed + 1) (displayWidthWithLimit rw rs 2 width)
      else (r # rs, trimmed))"

definition trimLeft :: "(rune \<Rightarrow> int) \<Rightarrow> rune list \<Rightarrow> int \<Rightarrow> rune list \<times> int" where
  "trimLeft rw runes width = trimLeft_loop rw width runes 0 (displayWidth rw runes)"

text \<open>\<^verbatim>\<open>processTabs\<close>: a tab becomes as many spaces as its width.\<close>

fun processTabs_loop ::
  "(rune \<Rightarrow> int) \<Rightarrow> gostring \<Rightarrow> int \<Rightarrow> rune list \<Rightarrow> gostring \<times> int" where
  "processTabs_loop rw strbuf l [] = (strbuf, l)"
| "processTabs_loop rw strbuf l (r # rs) =
     (let w = runeWidth rw r l;
          l = l + w
      in if r = 9 then processTabs_loop rw (strbuf @ replicate (nat w) 32) l rs
         else processTabs_loop rw (strbuf @ [r]) l rs)"

definition processTabs :: "(rune \<Rightarrow> int) \<Rightarrow> rune list \<Rightarrow> int \<Rightarrow> gostring \<times> int" where
  "processTabs rw runes prefixWidth = processTabs_loop rw [] prefixWidth runes"

subsection \<open>\<^verbatim>\<open>printHighlighted\<close>\<close>

record colorOffset =
  co_offset :: "int \<times> int"
  co_color :: int
  co_bold :: bool

text \<open>
  Modelled from the spec: \<^verbatim>\<open>Item.colorOffsets\<close> is not in \<^verbatim>\<open>src/\<close>. In the spec an
  item carries its match offsets and nothing else to highlight, so that each match offset
  is one span in the colour and weight asked for.
\<close>

definition colorOffsets :: "Item \<Rightarrow> int \<Rightarrow> bool \<Rightarrow> bool \<Rightarrow> colorOffset list" where
  "colorOffsets item color bold current =
     map (\<lambda>off. \<lparr> co_offset = off, co_color = color, co_bold = bold \<rparr>) (item_offsets item)"

text \<open>One call of \<^verbatim>\<open>C.CPrint\<close>: colour, weight and string.\<close>

type_synonym cprint = "int \<times> bool \<times> gostring"

text \<open>
  The first half of \<^verbatim>\<open>printHighlighted\<close>, down to the end of the \<^verbatim>\<open>if fullWidth >
  maxWidth\<close> statement: it returns the variables \<^verbatim>\<open>text\<close> and \<^verbatim>\<open>offsets\<close>. \<open>maxx\<close> is
  what \<^verbatim>\<open>C.MaxX()\<close> returns, the number of columns of the screen.
\<close>

definition printHighlighted_trim ::
  "(rune \<Rightarrow> int) \<Rightarrow> int \<Rightarrow> 'h Terminal \<Rightarrow> Item \<Rightarrow> bool \<Rightarrow> int \<Rightarrow> bool
     \<Rightarrow> (rune list \<times> colorOffset list) option" where
  "printHighlighted_trim rw maxx t item bold col2 current =
     (let maxe = foldl (\<lambda>maxe off. if snd off > maxe then snd off else maxe) 0 (item_offsets item);
          text = item_text item;
          offsets = colorOffsets item col2 bold current;
          maxWidth = maxx - 3;
          fullWidth = displayWidth rw text
      in if fullWidth > maxWidth then
           (if hscroll t then
              do {
                upto_maxe \<leftarrow> slice text 0 maxe;
                let matchEndWidth = displayWidth rw upto_maxe;
                if matchEndWidth \<le> maxWidth - 2 then
                  Some (fst (trimRight rw text (maxWidth - 2)) @ [46, 46], offsets)
                else
                  (let text = (if matchEndWidth < fullWidth - 2 then upto_maxe @ [46, 46] else text);
                       (text, diff) = trimLeft rw text (maxWidth - 2);
                       offsets = map (\<lambda>off.
                           (let b = fst (co_offset off) + (2 - diff);
                                e = snd (co_offset off) + (2 - diff);
                                b = Max32 b 2
                            in off\<lparr>co_offset := (b, Max32 b e)\<rparr>)) offsets
                   in Some ([46, 46] @ text, offsets))
              }
            else
              Some (fst (trimRight rw text (maxWidth - 2)) @ [46, 46],
                    map (\<lambda>off. off\<lparr>co_offset :=
                           (Min32 (fst (co_offset off)) (maxWidth - 2),
                            Min32 (snd (co_offset off)) maxWidth)\<rparr>) offsets))
         else Some (text, offsets))"

text \<open>
  The second half: the loop over \<^verbatim>\<open>offsets\<close> that paints. Its state is \<^verbatim>\<open>index\<close>,
  \<^verbatim>\<open>prefixWidth\<close> and the calls of \<^verbatim>\<open>C.CPrint\<close> made so far.
\<close>

fun paint_loop ::
  "(rune \<Rightarrow> int) \<Rightarrow> rune list \<Rightarrow> int \<Rightarrow> bool \<Rightarrow> int \<times> int \<times> cprint list \<Rightarrow> colorOffset list
     \<Rightarrow> (int \<times> int \<times> cprint list) option" where
  "paint_loop rw text col1 bold (index, prefixWidth, out) [] = Some (index, prefixWidth, out)"
| "paint_loop rw text col1 bold (index, prefixWidth, out) (off # offsets) =
     (let maxOffset = len text;
          b = Constrain32 (fst (co_offset off)) index maxOffset;
          e = Constrain32 (snd (co_offset off)) index maxOffset
      in do {
        gap \<leftarrow> slice text index b;
        let (substr, prefixWidth) = processTabs rw gap prefixWidth;
        let out = out @ [(col1, bold, substr)];
        (prefixWidth, out) \<leftarrow>
          (if b < e then
             do {
               span \<leftarrow> slice text b e;
               let (substr, prefixWidth) = processTabs rw span prefixWidth;
               Some (prefixWidth, out @ [(co_color off, co_bold off, substr)])
             }
           else Some (prefixWidth, out));
        let index = e;
        if index \<ge> maxOffset then Some (index, prefixWidth, out)
        else paint_loop rw text col1 bold (index, prefixWidth, out) offsets
      })"

definition printHighlighted_paint ::
  "(rune \<Rightarrow> int) \<Rightarrow> rune list \<Rightarrow> colorOffset list \<Rightarrow> int \<Rightarrow> bool \<Rightarrow> cprint list option" where
  "printHighlighted_paint rw text offsets col1 bold =
     do {
       (index, prefixWidth, out) \<leftarrow> paint_loop rw text col1 bold (0, 0, []) offsets;
       if index < len text then
         do {
           rest \<leftarrow> slice text index (len text);
           Some (out @ [(col1, bold, fst (processTabs rw rest prefixWidth))])
         }
       else Some out
     }"

text \<open>\<^verbatim>\<open>printHighlighted\<close>: the calls of \<^verbatim>\<open>C.CPrint\<close> that it makes, in order.\<close>

definition printHighlighted ::
  "(rune \<Rightarrow> int) \<Rightarrow> int \<Rightarrow> 'h Terminal \<Rightarrow> Item \<Rightarrow> bool \<Rightarrow> int \<Rightarrow> int \<Rightarrow> bool
     \<Rightarrow> cprint list option" where
  "printHighlighted rw maxx t item bold col1 col2 current =
     do {
       (text, offsets) \<leftarrow> printHighlighted_trim rw maxx t item bold col2 current;
       printHighlighted_paint rw text offsets col1 bold
     }"

subsection \<open>Standard output: \<^verbatim>\<open>output\<close>\<close>

text \<open>
  The key codes of package curses that \<^verbatim>\<open>terminal.go\<close> computes with, declared
  outside \<^verbatim>\<open>src/\<close>: parameters.
\<close>

record keycodes =
  C_Rune :: int
  C_Mouse :: int
  C_CtrlA :: int
  C_CtrlZ :: int
  C_F1 :: int
  C_F4 :: int
  C_AltA :: int
  C_AltZ :: int

text \<open>
  \<^verbatim>\<open>sort.Sort(byTimeOrder(sels))\<close> sorts by \<^verbatim>\<open>Less\<close>, that is by the field \<^verbatim>\<open>at\<close>.
  It is not stable, and the order in which the loop before it collects the map's values is
  not specified; the theorems use of the result only that it is sorted and holds the same
  entries.
\<close>

definition byTimeOrder :: "selectedItem list \<Rightarrow> selectedItem list" where
  "byTimeOrder sels = sort_key sel_at sels"

text \<open>\<^verbatim>\<open>Merger.Get\<close>, outside \<^verbatim>\<open>src/\<close>: an index outside the list panics.\<close>

definition Get :: "Item list \<Rightarrow> int \<Rightarrow> Item option" where
  "Get m i = (if 0 \<le> i \<and> i < len m then Some (m ! nat i) else None)"

text \<open>\<^verbatim>\<open>output\<close>: the lines written to the standard output, in order; \<open>None\<close> when
  \<^verbatim>\<open>t.merger.Get(t.cy)\<close> panics.\<close>

definition "output" :: "keycodes \<Rightarrow> 'h Terminal \<Rightarrow> gostring list option" where
  "output K t =
     (let query_line = (if printQuery t then [input t] else []);
          key_line =
            (if length (expect t) > 0 then
               (if pressed t = 0 then [[]]
                else if Between (pressed t) (C_AltA K) (C_AltZ K)
                  then [[97, 108, 116, 45] @ [pressed t + 97 - C_AltA K]]
                else if Between (pressed t) (C_F1 K) (C_F4 K)
                  then [[102] @ [pressed t + 49 - C_F1 K]]
                else if Between (pressed t) (C_CtrlA K) (C_CtrlZ K)
                  then [[99, 116, 114, 108, 45] @ [pressed t + 97 - C_CtrlA K]]
                else [[pressed t - C_AltZ K]])
             else [])
      in if length (selected t) = 0 then
           (let cnt = len (merger t)
            in if cnt > 0 \<and> cnt > cy t
               then do {
                 item \<leftarrow> Get (merger t) (cy t);
                 Some (query_line @ key_line @ [AsString item])
               }
               else Some (query_line @ key_line))
         else Some (query_line @ key_line
                    @ map sel_text (byTimeOrder (map snd (selected t)))))"

subsection \<open>Package regexp\<close>

text \<open>
  The functions of Go's package regexp that \<^verbatim>\<open>findLastMatch\<close> and
  \<^verbatim>\<open>findFirstMatch\<close> call: parameters. \<open>Compile\<close> gives \<open>None\<close> for a pattern that does
  not compile. \<open>FindAllStringIndex\<close> gives the matches as pairs of byte indices into the
  string, \<open>[]\<close> being Go's \<^verbatim>\<open>nil\<close>; \<open>FindStringIndex\<close> gives the first one.
\<close>

record 'r regexp =
  Compile :: "string \<Rightarrow> 'r option"
  FindAllStringIndex :: "'r \<Rightarrow> gostring \<Rightarrow> (int \<times> int) list"
  FindStringIndex :: "'r \<Rightarrow> gostring \<Rightarrow> (int \<times> int) option"

definition findLastMatch :: "'r regexp \<Rightarrow> string \<Rightarrow> gostring \<Rightarrow> int" where
  "findLastMatch re pattern str =
     (case Compile re pattern of
        None \<Rightarrow> - 1
      | Some rx \<Rightarrow>
          (let locs = FindAllStringIndex re rx str
           in if locs = [] then - 1 else fst (last locs)))"

definition findFirstMatch :: "'r regexp \<Rightarrow> string \<Rightarrow> gostring \<Rightarrow> int" where
  "findFirstMatch re pattern str =
     (case Compile re pattern of
        None \<Rightarrow> - 1
      | Some rx \<Rightarrow>
          (case FindStringIndex re rx str of
             None \<Rightarrow> - 1
           | Some loc \<Rightarrow> fst loc))"

text \<open>The three patterns of the source, as Go reads the string literals:
  \<^verbatim>\<open>\s\S\<close>, \<^verbatim>\<open>[^[:alnum:]][[:alnum:]]\<close> and \<^verbatim>\<open>[[:alnum:]][^[:alnum:]]|(.$)\<close>.\<close>

definition pat_space_nonspace :: string where
  "pat_space_nonspace = [CHR 0x5C, CHR ''s'', CHR 0x5C, CHR ''S'']"

definition pat_nonalnum_alnum :: string where
  "pat_nonalnum_alnum = ''[^[:alnum:]][[:alnum:]]''"

definition pat_alnum_nonalnum_or_last :: string where
  "pat_alnum_nonalnum_or_last = ''[[:alnum:]][^[:alnum:]]|(.$)''"

subsection \<open>The input loop: one iteration of \<^verbatim>\<open>Loop\<close>\<close>

text \<open>
  Modelled from the spec: the types \<^verbatim>\<open>C.Event\<close> and \<^verbatim>\<open>C.MouseEvent\<close> are declared
  outside \<^verbatim>\<open>src/\<close>; these are the fields that \<^verbatim>\<open>Loop\<close> reads. \<^verbatim>\<open>MouseEvent\<close> is a
  pointer, \<open>None\<close> when nil.
\<close>

record MouseEvent =
  me_Y :: int
  me_X :: int
  me_S :: int
  me_Down :: bool
  me_Double :: bool
  me_Mod :: bool

record Event =
  ev_Type :: int
  ev_Char :: rune
  ev_MouseEvent :: "MouseEvent option"

text \<open>
  What the loop and the painting find around them: the screen height \<^verbatim>\<open>C.MaxY()\<close> and
  width \<^verbatim>\<open>C.MaxX()\<close>, the key codes, package regexp, the instants that the successive
  readings of \<^verbatim>\<open>time.Now()\<close> give (an instant is what \<^verbatim>\<open>UnixNano()\<close> returns of it,
  a number of nanoseconds), the three methods of \<^verbatim>\<open>History\<close> that the loop calls (each
  returns the new state of the history next to its result), the library function
  \<^verbatim>\<open>runewidth.RuneWidth\<close>, the three colour pairs of package curses that
  \<^verbatim>\<open>printItem\<close> hands to \<^verbatim>\<open>printHighlighted\<close>, and the constant
  \<^verbatim>\<open>spinnerDuration\<close>, which is declared outside \<^verbatim>\<open>src/\<close>.
\<close>

record ('r, 'h) env =
  MaxY :: int
  MaxX :: int
  Keys :: keycodes
  Regexp :: "'r regexp"
  Now :: "nat \<Rightarrow> time"
  History_override :: "gostring \<Rightarrow> 'h \<Rightarrow> 'h"
  History_previous :: "'h \<Rightarrow> gostring \<times> 'h"
  History_next :: "'h \<Rightarrow> gostring \<times> 'h"
  RuneWidth :: "rune \<Rightarrow> int"
  ColCurrent :: int
  ColCurrentMatch :: int
  ColMatch :: int
  spinnerDuration :: int

text \<open>UTF-8: the number of bytes that \<^verbatim>\<open>string(runes)\<close> spends on a rune; a rune that
  is not a valid code point becomes U+FFFD, three bytes.\<close>

definition utf8_len :: "rune \<Rightarrow> int" where
  "utf8_len r =
     (if r < 0 then 3
      else if r < 0x80 then 1
      else if r < 0x800 then 2
      else if 0xD800 \<le> r \<and> r \<le> 0xDFFF then 3
      else if r < 0x10000 then 3
      else if r \<le> 0x10FFFF then 4
      else 3)"

definition byte_len :: "gostring \<Rightarrow> int" where
  "byte_len s = sum_list (map utf8_len s)"

text \<open>
  The variables of one iteration: the terminal, \<^verbatim>\<open>events\<close>, \<^verbatim>\<open>looping\<close>, and whether
  the iteration left through \<^verbatim>\<open>continue\<close>, which skips the posting of \<^verbatim>\<open>events\<close>.
\<close>

record 'h iteration =
  terminal :: "'h Terminal"
  events :: "EventType list"
  looping :: bool
  continued :: bool

definition req :: "EventType list \<Rightarrow> 'h iteration \<Rightarrow> 'h iteration" where
  "req evts s =
     s\<lparr>events := events s @ evts,
       looping := (looping s \<and> reqClose \<notin> set evts \<and> reqQuit \<notin> set evts)\<rparr>"

definition selectItem :: "('r, 'h) env \<Rightarrow> Item \<Rightarrow> 'h Terminal \<Rightarrow> bool \<times> 'h Terminal" where
  "selectItem E item t =
     (if map_of (selected t) (item_index item) = None
      then (True, t\<lparr>selected := selected t
                       @ [(item_index item,
                           \<lparr> sel_at = Now E (clock t), sel_text = AsString item \<rparr>)],
                    clock := Suc (clock t)\<rparr>)
      else (False, t))"

text \<open>\<^verbatim>\<open>delete(t.selected, item.index)\<close>.\<close>

definition delete_selected :: "32 word \<Rightarrow> 'h Terminal \<Rightarrow> 'h Terminal" where
  "delete_selected k t = t\<lparr>selected := filter (\<lambda>e. fst e \<noteq> k) (selected t)\<rparr>"

text \<open>The body of \<^verbatim>\<open>toggleY\<close> after \<^verbatim>\<open>t.merger.Get(y)\<close>.\<close>

definition toggleItem :: "('r, 'h) env \<Rightarrow> Item \<Rightarrow> 'h Terminal \<Rightarrow> 'h Terminal" where
  "toggleItem E item t =
     (let (ok, t) = selectItem E item t
      in if \<not> ok then delete_selected (item_index item) t else t)"

definition toggleY :: "('r, 'h) env \<Rightarrow> int \<Rightarrow> 'h Terminal \<Rightarrow> 'h Terminal option" where
  "toggleY E y t = do { item \<leftarrow> Get (merger t) y; Some (toggleItem E item t) }"

definition toggle :: "('r, 'h) env \<Rightarrow> 'h iteration \<Rightarrow> 'h iteration option" where
  "toggle E s =
     (if cy (terminal s) < len (merger (terminal s))
      then do { t \<leftarrow> toggleY E (cy (terminal s)) (terminal s); Some (req [reqInfo] (s\<lparr>terminal := t\<rparr>)) }
      else Some s)"

definition delChar :: "'h Terminal \<Rightarrow> (bool \<times> 'h Terminal) option" where
  "delChar t =
     (if len (input t) > 0 \<and> cx t < len (input t)
      then do {
        a \<leftarrow> slice (input t) 0 (cx t);
        b \<leftarrow> slice (input t) (cx t + 1) (len (input t));
        Some (True, t\<lparr>input := a @ b\<rparr>)
      }
      else Some (False, t))"

definition rubout :: "('r, 'h) env \<Rightarrow> string \<Rightarrow> 'h Terminal \<Rightarrow> 'h Terminal option" where
  "rubout E pattern t =
     do {
       let pcx = cx t;
       after \<leftarrow> slice (input t) (cx t) (len (input t));
       front \<leftarrow> slice (input t) 0 (cx t);
       let t = t\<lparr>cx := findLastMatch (Regexp E) pattern front + 1\<rparr>;
       killed \<leftarrow> slice (input t) (cx t) pcx;
       let t = t\<lparr>yanked := copySlice killed\<rparr>;
       kept \<leftarrow> slice (input t) 0 (cx t);
       Some (t\<lparr>input := kept @ after\<rparr>)
     }"

definition keyMatch :: "keycodes \<Rightarrow> int \<Rightarrow> Event \<Rightarrow> bool" where
  "keyMatch K key event =
     (ev_Type event = key \<or> ev_Type event = C_Rune K \<and> ev_Char event = key - C_AltZ K)"

text \<open>\<^verbatim>\<open>executeCommand\<close> runs a shell command between \<^verbatim>\<open>C.Endwin()\<close> and
  \<^verbatim>\<open>C.Refresh()\<close>; it does not touch the terminal's fields and has no counterpart.\<close>

text \<open>The \<^verbatim>\<open>switch action\<close> statement.\<close>

definition Loop_switch ::
  "('r, 'h) env \<Rightarrow> actionType \<Rightarrow> Event \<Rightarrow> int \<Rightarrow> 'h iteration \<Rightarrow> 'h iteration option" where
  "Loop_switch E action event mapkey s =
     (let t = terminal s in
      case action of
        actIgnore \<Rightarrow> Some s
      | actExecute \<Rightarrow>
          (if cy t \<ge> 0 \<and> cy t < len (merger t)
           then do { item \<leftarrow> Get (merger t) (cy t); Some s }
           else Some s)
      | actInvalid \<Rightarrow> Some (s\<lparr>continued := True\<rparr>)
      | actToggleSort \<Rightarrow> Some (s\<lparr>terminal := t\<lparr>sort_flag := \<not> sort_flag t\<rparr>, continued := True\<rparr>)
      | actBeginningOfLine \<Rightarrow> Some (s\<lparr>terminal := t\<lparr>cx := 0\<rparr>\<rparr>)
      | actBackwardChar \<Rightarrow>
          (if cx t > 0 then Some (s\<lparr>terminal := t\<lparr>cx := cx t - 1\<rparr>\<rparr>) else Some s)
      | actAbort \<Rightarrow> Some (req [reqQuit] s)
      | actDeleteChar \<Rightarrow>
          do {
            (deleted, t) \<leftarrow> delChar t;
            let s = s\<lparr>terminal := t\<rparr>;
            if \<not> deleted \<and> cx t = 0 then Some (req [reqQuit] s) else Some s
          }
      | actEndOfLine \<Rightarrow> Some (s\<lparr>terminal := t\<lparr>cx := len (input t)\<rparr>\<rparr>)
      | actForwardChar \<Rightarrow>
          (if cx t < len (input t) then Some (s\<lparr>terminal := t\<lparr>cx := cx t + 1\<rparr>\<rparr>) else Some s)
      | actBackwardDeleteChar \<Rightarrow>
          (if cx t > 0
           then do {
             a \<leftarrow> slice (input t) 0 (cx t - 1);
             b \<leftarrow> slice (input t) (cx t) (len (input t));
             Some (s\<lparr>terminal := t\<lparr>input := a @ b, cx := cx t - 1\<rparr>\<rparr>)
           }
           else Some s)
      | actSelectAll \<Rightarrow>
          (if multi t
           then Some (req [reqList, reqInfo]
                        (s\<lparr>terminal := foldl (\<lambda>t item. snd (selectItem E item t)) t (merger t)\<rparr>))
           else Some s)
      | actDeselectAll \<Rightarrow>
          (if multi t
           then Some (req [reqList, reqInfo]
                        (s\<lparr>terminal := foldl (\<lambda>t item. delete_selected (item_index item) t) t (merger t)\<rparr>))
           else Some s)
      | actToggle \<Rightarrow>
          (if multi t \<and> len (merger t) > 0
           then do { s \<leftarrow> toggle E s; Some (req [reqList] s) }
           else Some s)
      | actToggleAll \<Rightarrow>
          (if multi t
           then Some (req [reqList, reqInfo]
                        (s\<lparr>terminal := foldl (\<lambda>t item. toggleItem E item t) t (merger t)\<rparr>))
           else Some s)
      | actToggleDown \<Rightarrow>
          (if multi t \<and> len (merger t) > 0
           then do {
             s \<leftarrow> toggle E s;
             Some (req [reqList] (s\<lparr>terminal := vmove (- 1) (terminal s)\<rparr>))
           }
           else Some s)
      | actToggleUp \<Rightarrow>
          (if multi t \<and> len (merger t) > 0
           then do {
             s \<leftarrow> toggle E s;
             Some (req [reqList] (s\<lparr>terminal := vmove 1 (terminal s)\<rparr>))
           }
           else Some s)
      | actDown \<Rightarrow> Some (req [reqList] (s\<lparr>terminal := vmove (- 1) t\<rparr>))
      | actUp \<Rightarrow> Some (req [reqList] (s\<lparr>terminal := vmove 1 t\<rparr>))
      | actAccept \<Rightarrow> Some (req [reqClose] s)
      | actClearScreen \<Rightarrow> Some (req [reqRedraw] s)
      | actUnixLineDiscard \<Rightarrow>
          (if cx t > 0
           then do {
             killed \<leftarrow> slice (input t) 0 (cx t);
             rest \<leftarrow> slice (input t) (cx t) (len (input t));
             Some (s\<lparr>terminal := t\<lparr>yanked := copySlice killed, input := rest, cx := 0\<rparr>\<rparr>)
           }
           else Some s)
      | actUnixWordRubout \<Rightarrow>
          (if cx t > 0
           then do { t \<leftarrow> rubout E pat_space_nonspace t; Some (s\<lparr>terminal := t\<rparr>) }
           else Some s)
      | actBackwardKillWord \<Rightarrow>
          (if cx t > 0
           then do { t \<leftarrow> rubout E pat_nonalnum_alnum t; Some (s\<lparr>terminal := t\<rparr>) }
           else Some s)
      | actYank \<Rightarrow>
          do {
            rest \<leftarrow> slice (input t) (cx t) (len (input t));
            let suffix = copySlice rest;
            front \<leftarrow> slice (input t) 0 (cx t);
            Some (s\<lparr>terminal := t\<lparr>input := (front @ yanked t) @ suffix,
                               cx := cx t + len (yanked t)\<rparr>\<rparr>)
          }
      | actPageUp \<Rightarrow>
          Some (req [reqList] (s\<lparr>terminal := vmove (maxItems (MaxY E) t - 1) t\<rparr>))
      | actPageDown \<Rightarrow>
          Some (req [reqList] (s\<lparr>terminal := vmove (- (maxItems (MaxY E) t - 1)) t\<rparr>))
      | actBackwardWord \<Rightarrow>
          do {
            front \<leftarrow> slice (input t) 0 (cx t);
            Some (s\<lparr>terminal := t\<lparr>cx := findLastMatch (Regexp E) pat_nonalnum_alnum front + 1\<rparr>\<rparr>)
          }
      | actForwardWord \<Rightarrow>
          do {
            rest \<leftarrow> slice (input t) (cx t) (len (input t));
            Some (s\<lparr>terminal := t\<lparr>cx := cx t
                     + (findFirstMatch (Regexp E) pat_alnum_nonalnum_or_last rest + 1)\<rparr>\<rparr>)
          }
      | actKillWord \<Rightarrow>
          do {
            rest \<leftarrow> slice (input t) (cx t) (len (input t));
            let ncx = cx t + findFirstMatch (Regexp E) pat_alnum_nonalnum_or_last rest + 1;
            if ncx > cx t then
              do {
                killed \<leftarrow> slice (input t) (cx t) ncx;
                front \<leftarrow> slice (input t) 0 (cx t);
                kept \<leftarrow> slice (input t) ncx (len (input t));
                Some (s\<lparr>terminal := t\<lparr>yanked := copySlice killed, input := front @ kept\<rparr>\<rparr>)
              }
            else Some s
          }
      | actKillLine \<Rightarrow>
          (if cx t < len (input t)
           then do {
             killed \<leftarrow> slice (input t) (cx t) (len (input t));
             front \<leftarrow> slice (input t) 0 (cx t);
             Some (s\<lparr>terminal := t\<lparr>yanked := copySlice killed, input := front\<rparr>\<rparr>)
           }
           else Some s)
      | actRune \<Rightarrow>
          do {
            front \<leftarrow> slice (input t) 0 (cx t);
            let prefix = copySlice front;
            rest \<leftarrow> slice (input t) (cx t) (len (input t));
            Some (s\<lparr>terminal := t\<lparr>input := (prefix @ [ev_Char event]) @ rest, cx := cx t + 1\<rparr>\<rparr>)
          }
      | actPreviousHistory \<Rightarrow>
          (case history t of
             None \<Rightarrow> Some s
           | Some h \<Rightarrow>
               (let (line, h) = History_previous E (History_override E (input t) h)
                in Some (s\<lparr>terminal := t\<lparr>history := Some h, input := line, cx := len line\<rparr>\<rparr>)))
      | actNextHistory \<Rightarrow>
          (case history t of
             None \<Rightarrow> Some s
           | Some h \<Rightarrow>
               (let (line, h) = History_next E (History_override E (input t) h)
                in Some (s\<lparr>terminal := t\<lparr>history := Some h, input := line, cx := len line\<rparr>\<rparr>)))
      | actMouse \<Rightarrow>
          do {
            me \<leftarrow> ev_MouseEvent event;
            let mx = Constrain (me_X me - byte_len (prompt t)) 0 (len (input t));
            let my = (if \<not> reverse t then MaxY E - me_Y me - 1 else me_Y me);
            let mn = (if inlineInfo t then 1 else 2);
            if me_S me \<noteq> 0 then
              (if len (merger t) > 0
               then do {
                 s \<leftarrow> (if multi t \<and> me_Mod me then toggle E s else Some s);
                 Some (req [reqList] (s\<lparr>terminal := vmove (me_S me) (terminal s)\<rparr>))
               }
               else Some s)
            else if me_Double me then
              (if my \<ge> mn
               then (let (ok, t) = vset (offset t + my - mn) t;
                         s = s\<lparr>terminal := t\<rparr>
                     in if ok \<and> cy t < len (merger t) then Some (req [reqClose] s) else Some s)
               else Some s)
            else if me_Down me then
              (if my = 0 \<and> mx \<ge> 0 then Some (s\<lparr>terminal := t\<lparr>cx := mx\<rparr>\<rparr>)
               else if my \<ge> mn
               then (let (ok, t) = vset (offset t + my - mn) t;
                         s = s\<lparr>terminal := t\<rparr>
                     in do {
                       s \<leftarrow> (if ok \<and> multi t \<and> me_Mod me then toggle E s else Some s);
                       Some (req [reqList] s)
                     })
               else Some s)
            else Some s
          })"

text \<open>
  One iteration of the \<^verbatim>\<open>for looping\<close> loop on the event that \<^verbatim>\<open>C.GetChar()\<close>
  returned: the keys of \<^verbatim>\<open>t.expect\<close>, the resolution of the action, the switch. The
  result holds, in \<open>events\<close>, the requests gathered; they are posted to \<^verbatim>\<open>t.reqBox\<close>
  unless \<open>continued\<close> is set. The notification of the search backend
  (\<^verbatim>\<open>t.eventBox.Set(EvtSearchNew, ...)\<close>) has no counterpart.
\<close>

definition Loop_iteration ::
  "('r, 'h) env \<Rightarrow> Event \<Rightarrow> 'h Terminal \<Rightarrow> 'h iteration option" where
  "Loop_iteration E event t =
     (let K = Keys E;
          s = \<lparr> terminal = t, events = [reqPrompt], looping = True, continued = False \<rparr>;
          s = (case find (\<lambda>key. keyMatch K key event) (expect t) of
                 Some key \<Rightarrow> req [reqClose] (s\<lparr>terminal := t\<lparr>pressed := key\<rparr>\<rparr>)
               | None \<Rightarrow> s);
          t = terminal s;
          action = (case keymap t (ev_Type event) of Some a \<Rightarrow> a | None \<Rightarrow> actIgnore);
          mapkey = ev_Type event;
          (action, mapkey) =
            (if ev_Type event = C_Rune K
             then (let mapkey = ev_Char event + C_AltZ K
                   in (case keymap t mapkey of Some act \<Rightarrow> (act, mapkey) | None \<Rightarrow> (action, mapkey)))
             else (action, mapkey))
      in Loop_switch E action event mapkey s)"

text \<open>The requests that an iteration posts to \<^verbatim>\<open>t.reqBox\<close>.\<close>

definition posted :: "'h iteration \<Rightarrow> EventType list" where
  "posted s = (if continued s then [] else events s)"

subsection \<open>Updates from the search: \<^verbatim>\<open>UpdateList\<close>\<close>

text \<open>\<^verbatim>\<open>UpdateList\<close> stores the new list under the mutex; after releasing it, it posts
  \<^verbatim>\<open>reqInfo\<close> and \<^verbatim>\<open>reqList\<close> to \<^verbatim>\<open>t.reqBox\<close>.\<close>

definition UpdateList :: "Item list \<Rightarrow> 'h Terminal \<Rightarrow> 'h Terminal" where
  "UpdateList m t = t\<lparr>progress := 100, merger := m\<rparr>"

subsection \<open>Painting\<close>

text \<open>
  The functions that paint the screen. Of what they do, the updates of the terminal's
  fields and the panics are kept; what they write to the screen is not, the text of an
  item apart (\<^verbatim>\<open>printHighlighted\<close> above). \<^verbatim>\<open>t.move\<close>, \<^verbatim>\<open>C.CPrint\<close>,
  \<^verbatim>\<open>C.Print\<close> and \<^verbatim>\<open>fmt.Sprintf\<close> take any argument. \<^verbatim>\<open>printPrompt\<close> moves the
  cursor and prints \<^verbatim>\<open>t.prompt\<close> and \<^verbatim>\<open>string(t.input)\<close>: it updates no field and
  cannot panic, and has no counterpart.
\<close>

text \<open>\<^verbatim>\<open>placeCursor\<close>: the column handed to \<^verbatim>\<open>t.move\<close>; \<open>None\<close> when
  \<^verbatim>\<open>t.input[:t.cx]\<close> panics.\<close>

definition placeCursor :: "('r, 'h) env \<Rightarrow> 'h Terminal \<Rightarrow> int option" where
  "placeCursor E t =
     do {
       front \<leftarrow> slice (input t) 0 (cx t);
       Some (byte_len (prompt t) + displayWidth (RuneWidth E) front)
     }"

text \<open>Go's integer division \<^verbatim>\<open>/\<close> truncates towards zero, like \<^verbatim>\<open>%\<close>; both panic
  on a zero divisor.\<close>

definition go_quo :: "int \<Rightarrow> int \<Rightarrow> int" where
  "go_quo a b = sgn a * sgn b * (\<bar>a\<bar> div \<bar>b\<bar>)"

text \<open>
  \<^verbatim>\<open>printInfo\<close>. On the line of its own and while \<^verbatim>\<open>t.reading\<close> holds, it reads the
  clock and indexes the eight frames of \<^verbatim>\<open>_spinner\<close> with
  \<^verbatim>\<open>(now % (duration * 8)) / duration\<close>. The rest formats and prints the counts.
\<close>

definition printInfo :: "('r, 'h) env \<Rightarrow> 'h Terminal \<Rightarrow> 'h Terminal option" where
  "printInfo E t =
     (if inlineInfo t then Some t
      else if reading t then
        (let duration = spinnerDuration E;
             now = Now E (clock t);
             t = t\<lparr>clock := Suc (clock t)\<rparr>
         in if duration * 8 = 0 \<or> duration = 0 then None
            else (let idx = go_quo (go_rem now (duration * 8)) duration
                  in if 0 \<le> idx \<and> idx < 8 then Some t else None))
      else Some t)"

text \<open>\<^verbatim>\<open>printItem\<close>: after the marks of the cursor and of the selection, the text of
  the item; the result is what \<^verbatim>\<open>printHighlighted\<close> prints.\<close>

definition printItem :: "('r, 'h) env \<Rightarrow> 'h Terminal \<Rightarrow> Item \<Rightarrow> bool \<Rightarrow> cprint list option" where
  "printItem E t item current =
     (if current
      then printHighlighted (RuneWidth E) (MaxX E) t item True (ColCurrent E) (ColCurrentMatch E) True
      else printHighlighted (RuneWidth E) (MaxX E) t item False 0 (ColMatch E) False)"

text \<open>The loop of \<^verbatim>\<open>printList\<close> over the rows \<open>i\<close> of the window, and \<^verbatim>\<open>printList\<close>,
  which returns the terminal as \<^verbatim>\<open>constrain\<close> leaves it.\<close>

fun printList_rows :: "('r, 'h) env \<Rightarrow> 'h Terminal \<Rightarrow> int \<Rightarrow> int list \<Rightarrow> unit option" where
  "printList_rows E t cnt [] = Some ()"
| "printList_rows E t cnt (i # rows) =
     do {
       (if i < cnt
        then do {
          item \<leftarrow> Get (merger t) (i + offset t);
          printed \<leftarrow> printItem E t item (i = cy t - offset t);
          Some ()
        }
        else Some ());
       printList_rows E t cnt rows
     }"

definition printList :: "('r, 'h) env \<Rightarrow> 'h Terminal \<Rightarrow> 'h Terminal option" where
  "printList E t =
     (let t = constrain (MaxY E) t;
          maxy = maxItems (MaxY E) t;
          count = len (merger t) - offset t
      in do {
        printList_rows E t count (map int [0..<nat maxy]);
        Some t
      })"

text \<open>\<^verbatim>\<open>printAll\<close>: \<^verbatim>\<open>printList\<close>, \<^verbatim>\<open>printPrompt\<close> and \<^verbatim>\<open>printInfo\<close>, in
  that order.\<close>

definition printAll :: "('r, 'h) env \<Rightarrow> 'h Terminal \<Rightarrow> 'h Terminal option" where
  "printAll E t = do { t \<leftarrow> printList E t; printInfo E t }"

subsection \<open>The consumer of the requests\<close>

text \<open>
  The goroutine that waits on \<^verbatim>\<open>t.reqBox\<close> handles the pending requests one after the
  other, in the order of \<^verbatim>\<open>for req := range *events\<close>: the list given here (the type
  \<^verbatim>\<open>util.Events\<close> is declared outside \<^verbatim>\<open>src/\<close>; the spec describes it as a set of
  pending request kinds). \<^verbatim>\<open>reqClose\<close> writes the output and exits with status 0,
  \<^verbatim>\<open>reqQuit\<close> exits with status 1; \<^verbatim>\<open>os.Exit\<close> ends the process, and the requests
  after it are not handled. On the way to status 0, \<^verbatim>\<open>exit\<close> appends the query to the
  history, a collaborator outside \<^verbatim>\<open>src/\<close>. When all the requests are handled,
  \<^verbatim>\<open>t.placeCursor()\<close> is called. The result is the exit status with the lines written to
  the standard output, or a panic, or the terminal when the process goes on.
\<close>

datatype 'h outcome = Exited int "gostring list" | Panicked | Running "'h Terminal"

fun consume :: "('r, 'h) env \<Rightarrow> EventType list \<Rightarrow> 'h Terminal \<Rightarrow> 'h outcome" where
  "consume E [] t = (case placeCursor E t of None \<Rightarrow> Panicked | Some column \<Rightarrow> Running t)"
| "consume E (r # rs) t =
     (case r of
        reqPrompt \<Rightarrow>
          (case (if inlineInfo t then printInfo E t else Some t) of
             None \<Rightarrow> Panicked | Some t \<Rightarrow> consume E rs t)
      | reqInfo \<Rightarrow> (case printInfo E t of None \<Rightarrow> Panicked | Some t \<Rightarrow> consume E rs t)
      | reqList \<Rightarrow> (case printList E t of None \<Rightarrow> Panicked | Some t \<Rightarrow> consume E rs t)
      | reqRefresh \<Rightarrow> consume E rs (t\<lparr>suppress := False\<rparr>)
      | reqRedraw \<Rightarrow> (case printAll E t of None \<Rightarrow> Panicked | Some t \<Rightarrow> consume E rs t)
      | reqClose \<Rightarrow>
          (case output (Keys E) t of None \<Rightarrow> Panicked | Some lines \<Rightarrow> Exited 0 lines)
      | reqQuit \<Rightarrow> Exited 1 [])"

subsection \<open>An instance of package regexp\<close>

text \<open>
  For the scenarios, the part of Go's regular expressions that the three patterns need:
  character classes, concatenation, alternation and the end of the text, matched
  leftmost-first over the runes of the string, the positions counted in bytes.
\<close>

datatype rx = Class "rune \<Rightarrow> bool" | Cat rx rx | Alt rx rx | EndOfText

text \<open>What remains of the string after each way in which the expression matches a prefix
  of it, the preferred way first.\<close>

fun rx_match :: "rx \<Rightarrow> rune list \<Rightarrow> rune list list" where
  "rx_match (Class p) [] = []"
| "rx_match (Class p) (c # cs) = (if p c then [cs] else [])"
| "rx_match (Cat a b) s = concat (map (rx_match b) (rx_match a s))"
| "rx_match (Alt a b) s = rx_match a s @ rx_match b s"
| "rx_match EndOfText s = (if s = [] then [[]] else [])"

text \<open>The leftmost match in \<open>s\<close>, which starts at byte \<open>pos\<close> of the whole string.\<close>

fun rx_find :: "rx \<Rightarrow> int \<Rightarrow> rune list \<Rightarrow> (int \<times> int) option" where
  "rx_find r pos [] = (case rx_match r [] of [] \<Rightarrow> None | rest # _ \<Rightarrow> Some (pos, pos))"
| "rx_find r pos (c # cs) =
     (case rx_match r (c # cs) of
        [] \<Rightarrow> rx_find r (pos + utf8_len c) cs
      | rest # _ \<Rightarrow> Some (pos, pos + (byte_len (c # cs) - byte_len rest)))"

text \<open>The successive matches, none overlapping the one before: \<open>skip\<close> counts the runes
  still covered by the last match. None of the three patterns matches the empty string.\<close>

fun rx_find_all :: "rx \<Rightarrow> int \<Rightarrow> nat \<Rightarrow> rune list \<Rightarrow> (int \<times> int) list" where
  "rx_find_all r pos skip [] = []"
| "rx_find_all r pos skip (c # cs) =
     (if skip > 0 then rx_find_all r (pos + utf8_len c) (skip - 1) cs
      else (case rx_match r (c # cs) of
              [] \<Rightarrow> rx_find_all r (pos + utf8_len c) 0 cs
            | rest # _ \<Rightarrow>
                (pos, pos + (byte_len (c # cs) - byte_len rest))
                # rx_find_all r (pos + utf8_len c) (length cs - length rest) cs))"

definition is_alnum :: "rune \<Rightarrow> bool" where
  "is_alnum r = (48 \<le> r \<and> r \<le> 57 \<or> 65 \<le> r \<and> r \<le> 90 \<or> 97 \<le> r \<and> r \<le> 122)"

definition is_space :: "rune \<Rightarrow> bool" where
  "is_space r = (r = 9 \<or> r = 10 \<or> r = 12 \<or> r = 13 \<or> r = 32)"

text \<open>The three patterns compile to the expressions below; no other pattern is given a
  meaning, and \<open>go_Compile\<close> treats it as one that does not compile.\<close>

definition go_Compile :: "string \<Rightarrow> rx option" where
  "go_Compile pattern =
     (if pattern = pat_space_nonspace
        then Some (Cat (Class is_space) (Class (\<lambda>r. \<not> is_space r)))
      else if pattern = pat_nonalnum_alnum
        then Some (Cat (Class (\<lambda>r. \<not> is_alnum r)) (Class is_alnum))
      else if pattern = pat_alnum_nonalnum_or_last
        then Some (Alt (Cat (Class is_alnum) (Class (\<lambda>r. \<not> is_alnum r)))
                       (Cat (Class (\<lambda>r. r \<noteq> 10)) EndOfText))
      else None)"

definition go_regexp :: "rx regexp" where
  "go_regexp =
     \<lparr> Compile = go_Compile,
       FindAllStringIndex = (\<lambda>r s. rx_find_all r 0 0 s),
       FindStringIndex = (\<lambda>r s. rx_find r 0 s) \<rparr>"

subsection \<open>Predicates of the statements\<close>

text \<open>The pattern does not compile, or it compiles and has no match in the string: the
  two ways in which \<^verbatim>\<open>findLastMatch\<close> and \<^verbatim>\<open>findFirstMatch\<close> come to return -1.\<close>

definition no_last_match :: "'r regexp \<Rightarrow> string \<Rightarrow> gostring \<Rightarrow> bool" where
  "no_last_match R pattern str =
     (case Compile R pattern of None \<Rightarrow> True | Some r \<Rightarrow> FindAllStringIndex R r str = [])"

definition no_first_match :: "'r regexp \<Rightarrow> string \<Rightarrow> gostring \<Rightarrow> bool" where
  "no_first_match R pattern str =
     (case Compile R pattern of None \<Rightarrow> True | Some r \<Rightarrow> FindStringIndex R r str = None)"

text \<open>The column reached after \<open>runes\<close> are printed from column \<open>a\<close> on.\<close>

definition columns_from :: "(rune \<Rightarrow> int) \<Rightarrow> int \<Rightarrow> rune list \<Rightarrow> int" where
  "columns_from rw a runes = foldl (\<lambda>l r. l + runeWidth rw r l) a runes"

text \<open>The strings printed by a sequence of calls of \<^verbatim>\<open>C.CPrint\<close>, one after the
  other.\<close>

definition painted :: "cprint list \<Rightarrow> gostring" where
  "painted out = concat (map (\<lambda>p. snd (snd p)) out)"

text \<open>The variable \<^verbatim>\<open>maxe\<close> of \<^verbatim>\<open>printHighlighted\<close>, the furthest end of a match.\<close>

definition match_end :: "Item \<Rightarrow> int" where
  "match_end item =
     foldl (\<lambda>maxe off. if snd off > maxe then snd off else maxe) 0 (item_offsets item)"

text \<open>The branch of \<^verbatim>\<open>printHighlighted\<close> that trims from the left is taken:
  horizontal scrolling is on and the text up to \<^verbatim>\<open>maxe\<close> is wider than
  \<open>maxWidth - 2\<close>.\<close>

definition trims_left :: "(rune \<Rightarrow> int) \<Rightarrow> int \<Rightarrow> 'h Terminal \<Rightarrow> Item \<Rightarrow> bool" where
  "trims_left rw maxx t item =
     (hscroll t
      \<and> displayWidth rw (take (nat (match_end item)) (item_text item)) > maxx - 3 - 2)"

text \<open>No rune is a tab or wider than one column.\<close>

definition narrow :: "(rune \<Rightarrow> int) \<Rightarrow> rune list \<Rightarrow> bool" where
  "narrow rw runes = (\<forall>r\<in>set runes. r \<noteq> 9 \<and> rw r \<le> 1)"

text \<open>The match offsets of the item lie inside its text: \<open>0 \<le> start \<le> end \<le> length\<close>.\<close>

definition wf_offsets :: "Item \<Rightarrow> bool" where
  "wf_offsets item =
     (\<forall>off\<in>set (item_offsets item).
        0 \<le> fst off \<and> fst off \<le> snd off \<and> snd off \<le> len (item_text item))"

text \<open>The invariant of the query: the cursor is a position of the query,
  \<open>0 \<le> cx \<le> len(input)\<close>.\<close>

definition cursor_ok :: "'h Terminal \<Rightarrow> bool" where
  "cursor_ok t = (0 \<le> cx t \<and> cx t \<le> len (input t))"

subsection \<open>Concrete states for the scenarios\<close>

definition demo_options :: "unit Options" where
  "demo_options =
     \<lparr> opt_InlineInfo = False, opt_Prompt = [62, 32], opt_Reverse = False,
       opt_Hscroll = True, opt_Query = [], opt_Multi = False, opt_Sort = 1,
       opt_ToggleSort = False, opt_Expect = [], opt_Keymap = Map.empty,
       opt_Execmap = Map.empty, opt_PrintQuery = False, opt_History = None,
       opt_Cycle = False \<rparr>"

definition demo_item :: "nat \<Rightarrow> gostring \<Rightarrow> Item" where
  "demo_item n s =
     \<lparr> item_index = of_nat n, item_text = s, item_origText = None, item_offsets = [] \<rparr>"

text \<open>A list of \<open>n\<close> items, numbered from 0, each showing one letter.\<close>

definition demo_list :: "nat \<Rightarrow> Item list" where
  "demo_list n = map (\<lambda>i. demo_item i [97 + int i]) [0..<n]"

definition demo_terminal :: "unit Terminal" where
  "demo_terminal = NewTerminal demo_options"

text \<open>Key codes numbered as an enumeration would number them, a clock that advances by
  one at each reading, a screen of 24 rows and 80 columns, a spinner frame of 200
  milliseconds and no history.\<close>

definition demo_keys :: keycodes where
  "demo_keys =
     \<lparr> C_Rune = 0, C_Mouse = 29, C_CtrlA = 1, C_CtrlZ = 26, C_F1 = 44, C_F4 = 47,
       C_AltA = 49, C_AltZ = 74 \<rparr>"

text \<open>An instance of \<^verbatim>\<open>runewidth.RuneWidth\<close>: control characters take no column, the
  CJK unified ideographs two, every other rune one.\<close>

definition demo_RuneWidth :: "rune \<Rightarrow> int" where
  "demo_RuneWidth r =
     (if r < 32 \<or> r = 127 then 0 else if 0x4E00 \<le> r \<and> r \<le> 0x9FFF then 2 else 1)"

definition demo_env :: "(rx, unit) env" where
  "demo_env =
     \<lparr> MaxY = 24, MaxX = 80, Keys = demo_keys, Regexp = go_regexp, Now = (\<lambda>n. int n),
       History_override = (\<lambda>line h. h), History_previous = (\<lambda>h. ([], h)),
       History_next = (\<lambda>h. ([], h)), RuneWidth = demo_RuneWidth, ColCurrent = 1,
       ColCurrentMatch = 2, ColMatch = 3, spinnerDuration = 200000000 \<rparr>"

text \<open>The iteration as it stands when the switch is reached and no key of
  \<^verbatim>\<open>t.expect\<close> has matched.\<close>

definition at_switch :: "'h Terminal \<Rightarrow> 'h iteration" where
  "at_switch t = \<lparr> terminal = t, events = [reqPrompt], looping = True, continued = False \<rparr>"

definition no_event :: Event where
  "no_event = \<lparr> ev_Type = 0, ev_Char = 0, ev_MouseEvent = None \<rparr>"

text \<open>The query \<^verbatim>\<open>"abc"\<close> with the cursor at its end, and the query of the four code
  points U+00E9, U+00E9, space and \<^verbatim>\<open>a\<close> (six bytes in UTF-8) with the cursor at its
  end.\<close>

definition abc_terminal :: "unit Terminal" where
  "abc_terminal = demo_terminal\<lparr>input := [97, 98, 99], cx := 3\<rparr>"

definition accents_terminal :: "unit Terminal" where
  "accents_terminal = demo_terminal\<lparr>input := [233, 233, 32, 97], cx := 4\<rparr>"


text \<open>Three items, a window of two rows (a screen of four), the cursor on the last item
  and the window scrolled beyond it.\<close>

definition shrunk_terminal :: "unit Terminal" where
  "shrunk_terminal = demo_terminal\<lparr>merger := demo_list 3, cy := 2, offset := 3\<rparr>"

text \<open>The initial terminal after its empty list has been painted once and a list of three
  items has then been stored by \<^verbatim>\<open>UpdateList\<close>, not painted yet.\<close>

definition repopulated_terminal :: "unit Terminal" where
  "repopulated_terminal = UpdateList (demo_list 3) (constrain 24 demo_terminal)"

text \<open>Items for the rendering: a text that starts with a tab, a text with a tab in
  second place and a match behind it, and twelve letters with two matches.\<close>

definition text_item :: "gostring \<Rightarrow> (int \<times> int) list \<Rightarrow> Item" where
  "text_item s offs =
     \<lparr> item_index = 0, item_text = s, item_origText = None, item_offsets = offs \<rparr>"

definition tab_first_item :: Item where
  "tab_first_item = text_item [9, 97, 98] []"

definition tab_second_item :: Item where
  "tab_second_item = text_item [97, 9, 98, 99, 100, 101, 102, 103, 104] [(5, 6)]"

definition letters_item :: Item where
  "letters_item =
     text_item [97, 98, 99, 100, 101, 102, 103, 104, 105, 106, 107, 108] [(5, 6), (8, 11)]"


section \<open>Properties\<close>

subsection \<open>Viewport\<close>

lemma constrain_frame:
  "merger (constrain maxy t) = merger t"
  "maxItems maxy (constrain maxy t) = maxItems maxy t"
  by (simp_all add: constrain_def maxItems_def Let_def)

text \<open>A call of \<^verbatim>\<open>constrain\<close> that changes neither field leaves the state as it is.\<close>

lemma constrain_eqI:
  "cy (constrain maxy s) = cy s \<Longrightarrow> offset (constrain maxy s) = offset s \<Longrightarrow>
   constrain maxy s = s"
  by (auto simp: constrain_def Let_def split: if_splits)

text \<open>The two fields after \<^verbatim>\<open>constrain\<close>, as functions of the fields before.\<close>

lemma constrain_cy:
  "cy (constrain maxy t) =
     (let count = len (merger t); height = maxItems maxy t;
          c = Constrain (cy t) 0 (count - 1);
          off = (if c > offset t + (height - 1) then c - (height - 1)
                 else if offset t > c then c else offset t)
      in if count - off < height
         then Constrain (max 0 (count - height) + (cy t - offset t)) 0 (count - 1)
         else c)"
  by (simp add: constrain_def Let_def len_def)

lemma constrain_offset:
  "offset (constrain maxy t) =
     (let count = len (merger t); height = maxItems maxy t;
          c = Constrain (cy t) 0 (count - 1);
          off = (if c > offset t + (height - 1) then c - (height - 1)
                 else if offset t > c then c else offset t)
      in if count - off < height then max 0 (count - height) else off)"
  by (simp add: constrain_def Let_def len_def)

lemma constrain_twice_same:
  assumes "merger t \<noteq> []" and "0 < maxItems maxy t"
    and "offset t \<le> cy t \<or> len (merger t) \<le> maxItems maxy t
         \<or> maxItems maxy t \<le> len (merger t) - Constrain (cy t) 0 (len (merger t) - 1)"
  shows "constrain maxy (constrain maxy t) = constrain maxy t"
proof -
  from assms(1) have "0 < len (merger t)"
    by (simp add: len_def)
  with assms(2,3) show ?thesis
    by (intro constrain_eqI; simp only: constrain_cy constrain_offset constrain_frame)
       (auto simp: Constrain_def Let_def max_def split: if_splits)
qed

lemma constrain_twice_differs:
  assumes "merger t = [] \<or> maxItems maxy t \<le> 0
     \<or> (cy t < offset t \<and> maxItems maxy t < len (merger t)
        \<and> len (merger t) - Constrain (cy t) 0 (len (merger t) - 1) < maxItems maxy t)"
  shows "cy (constrain maxy (constrain maxy t)) \<noteq> cy (constrain maxy t)
       \<or> offset (constrain maxy (constrain maxy t)) \<noteq> offset (constrain maxy t)"
proof -
  consider (empty) "merger t = []"
    | (flat) "merger t \<noteq> []" "maxItems maxy t \<le> 0"
    | (above) "merger t \<noteq> []" "0 < maxItems maxy t" "cy t < offset t"
        "maxItems maxy t < len (merger t)"
        "len (merger t) - Constrain (cy t) 0 (len (merger t) - 1) < maxItems maxy t"
    using assms by (cases "merger t = []"; cases "maxItems maxy t \<le> 0") auto
  then show ?thesis
  proof cases
    case empty
    then have "len (merger t) = 0"
      by (simp add: len_def)
    then show ?thesis
      unfolding constrain_cy constrain_offset constrain_frame
      by (auto simp: Constrain_def Let_def max_def split: if_splits)
  next
    case flat
    then have "0 < len (merger t)" "maxItems maxy t \<le> 0"
      by (simp_all add: len_def)
    then show ?thesis
      unfolding constrain_cy constrain_offset constrain_frame
      by (auto simp: Constrain_def Let_def max_def split: if_splits)
  next
    case above
    then show ?thesis
      unfolding constrain_cy constrain_offset constrain_frame
      by (auto simp: Constrain_def Let_def max_def split: if_splits)
  qed
qed

lemma demo_list_length: "length (demo_list n) = n"
  by (simp add: demo_list_def)

lemma demo_terminal_fields:
  "\<not> inlineInfo demo_terminal" "\<not> reverse demo_terminal" "hscroll demo_terminal"
  "cx demo_terminal = 0" "cy demo_terminal = 0" "offset demo_terminal = 0"
  "yanked demo_terminal = []" "input demo_terminal = []" "\<not> multi demo_terminal"
  "expect demo_terminal = []" "\<not> printQuery demo_terminal" "history demo_terminal = None"
  "\<not> cycle demo_terminal" "merger demo_terminal = []" "selected demo_terminal = []"
  "clock demo_terminal = 0" "pressed demo_terminal = 0"
  by (simp_all add: demo_terminal_def NewTerminal_def demo_options_def)

text \<open>
  C3, as stated: \<^verbatim>\<open>constrain()\<close> is idempotent for every prior \<open>(cy, offset)\<close>, every
  count and every height. It is not: with three items and a window of two rows, from
  \<open>cy = 2\<close> and \<open>offset = 3\<close> the first application ends in \<open>(0, 1)\<close> (the adjustment
  step re-anchors the window at 1 and restores the relative row \<open>-1\<close>, clamped to 0),
  the second in \<open>(0, 0)\<close>.
\<close>

theorem constrain_not_idempotent:
  "cy (constrain 4 shrunk_terminal) = 0 \<and> offset (constrain 4 shrunk_terminal) = 1
   \<and> cy (constrain 4 (constrain 4 shrunk_terminal)) = 0
   \<and> offset (constrain 4 (constrain 4 shrunk_terminal)) = 0
   \<and> constrain 4 (constrain 4 shrunk_terminal) \<noteq> constrain 4 shrunk_terminal"
proof -
  have 1: "cy (constrain 4 shrunk_terminal) = 0 \<and> offset (constrain 4 shrunk_terminal) = 1"
    by (simp add: constrain_def Constrain_def maxItems_def Let_def shrunk_terminal_def
        demo_terminal_fields demo_list_length)
  have 2: "cy (constrain 4 (constrain 4 shrunk_terminal)) = 0
           \<and> offset (constrain 4 (constrain 4 shrunk_terminal)) = 0"
    by (simp add: constrain_def Constrain_def maxItems_def Let_def shrunk_terminal_def
        demo_terminal_fields demo_list_length)
  from 1 2 have "offset (constrain 4 (constrain 4 shrunk_terminal))
      \<noteq> offset (constrain 4 shrunk_terminal)"
    by simp
  then have "constrain 4 (constrain 4 shrunk_terminal) \<noteq> constrain 4 shrunk_terminal"
    by metis
  with 1 2 show ?thesis by simp
qed

text \<open>
  C3, amended: \<^verbatim>\<open>constrain()\<close> is idempotent exactly on the prior states in which
  the list is not empty, the window has at least one row, and one of the following holds:
  the cursor is not above the top of the window (\<open>offset \<le> cy\<close>); the whole list fits
  in the window (\<open>count \<le> height\<close>); at least \<open>height\<close> rows of the list start at the
  cursor row, once it is clamped into the list (\<open>height \<le> count - clamp(cy)\<close>). On those
  states applying it twice gives the state that applying it once gives; on every other
  state the second application changes \<open>cy\<close> or \<open>offset\<close> again.
\<close>

theorem constrain_idempotent:
  "constrain maxy (constrain maxy t) = constrain maxy t \<longleftrightarrow>
     merger t \<noteq> [] \<and> 0 < maxItems maxy t
     \<and> (offset t \<le> cy t \<or> len (merger t) \<le> maxItems maxy t
        \<or> maxItems maxy t \<le> len (merger t) - Constrain (cy t) 0 (len (merger t) - 1))"
proof
  assume e: "constrain maxy (constrain maxy t) = constrain maxy t"
  show "merger t \<noteq> [] \<and> 0 < maxItems maxy t
     \<and> (offset t \<le> cy t \<or> len (merger t) \<le> maxItems maxy t
        \<or> maxItems maxy t \<le> len (merger t) - Constrain (cy t) 0 (len (merger t) - 1))"
  proof (rule ccontr)
    assume "\<not> ?thesis"
    then have "merger t = [] \<or> maxItems maxy t \<le> 0
     \<or> (cy t < offset t \<and> maxItems maxy t < len (merger t)
        \<and> len (merger t) - Constrain (cy t) 0 (len (merger t) - 1) < maxItems maxy t)"
      by auto
    from constrain_twice_differs [OF this] e show False
      by simp
  qed
next
  assume "merger t \<noteq> [] \<and> 0 < maxItems maxy t
     \<and> (offset t \<le> cy t \<or> len (merger t) \<le> maxItems maxy t
        \<or> maxItems maxy t \<le> len (merger t) - Constrain (cy t) 0 (len (merger t) - 1))"
  then show "constrain maxy (constrain maxy t) = constrain maxy t"
    by (intro constrain_twice_same) simp_all
qed

text \<open>Thirty items in a window of eight rows with the cursor one row above the window
  (the window is moved down to the cursor, and that is all); three items in a window of two
  rows with the cursor beyond the list; and the empty list, where the second application
  undoes the first.\<close>

theorem constrain_idempotent_witness:
  "constrain 10 (constrain 10 (demo_terminal\<lparr>merger := demo_list 30, cy := 4, offset := 5\<rparr>))
     = constrain 10 (demo_terminal\<lparr>merger := demo_list 30, cy := 4, offset := 5\<rparr>)
   \<and> cy (constrain 10 (demo_terminal\<lparr>merger := demo_list 30, cy := 4, offset := 5\<rparr>)) = 4
   \<and> offset (constrain 10 (demo_terminal\<lparr>merger := demo_list 30, cy := 4, offset := 5\<rparr>)) = 4
   \<and> constrain 4 (constrain 4 (demo_terminal\<lparr>merger := demo_list 3, cy := 7, offset := 1\<rparr>))
       = constrain 4 (demo_terminal\<lparr>merger := demo_list 3, cy := 7, offset := 1\<rparr>)
   \<and> constrain 4 (constrain 4 demo_terminal) \<noteq> constrain 4 demo_terminal"
proof -
  let ?t = "demo_terminal\<lparr>merger := demo_list 30, cy := 4, offset := 5\<rparr>"
  let ?u = "demo_terminal\<lparr>merger := demo_list 3, cy := 7, offset := 1\<rparr>"
  have 1: "constrain 10 (constrain 10 ?t) = constrain 10 ?t"
    using constrain_idempotent [of 10 ?t]
    by (simp add: maxItems_def demo_terminal_fields demo_list_length len_def Constrain_def
        demo_list_def)
  have 2: "cy (constrain 10 ?t) = 4 \<and> offset (constrain 10 ?t) = 4"
    by (simp add: constrain_def Constrain_def maxItems_def Let_def demo_terminal_fields
        demo_list_length)
  have 3: "constrain 4 (constrain 4 ?u) = constrain 4 ?u"
    using constrain_idempotent [of 4 ?u]
    by (simp add: maxItems_def demo_terminal_fields demo_list_length len_def Constrain_def
        demo_list_def)
  have 4: "constrain 4 (constrain 4 demo_terminal) \<noteq> constrain 4 demo_terminal"
    using constrain_idempotent [of 4 demo_terminal]
    by (simp add: demo_terminal_fields)
  from 1 2 3 4 show ?thesis by simp
qed

text \<open>
  C4, as stated: with five items, the layout not reversed and the cursor on row 0,
  \<^verbatim>\<open>vmove(-1)\<close> moves the cursor to row 1. It does not: the destination \<open>-1\<close> is
  clamped and the cursor stays on row 0.
\<close>

theorem vmove_minus_one_stays:
  "\<not> multi (demo_terminal\<lparr>merger := demo_list 5\<rparr>)
   \<and> \<not> reverse (demo_terminal\<lparr>merger := demo_list 5\<rparr>)
   \<and> length (merger (demo_terminal\<lparr>merger := demo_list 5\<rparr>)) = 5
   \<and> cy (demo_terminal\<lparr>merger := demo_list 5\<rparr>) = 0
   \<and> cy (vmove (- 1) (demo_terminal\<lparr>merger := demo_list 5\<rparr>)) = 0
   \<and> cy (vmove (- 1) (demo_terminal\<lparr>merger := demo_list 5\<rparr>)) \<noteq> 1"
  by (simp add: vmove_def vset_def Constrain_def Let_def demo_terminal_fields demo_list_length)

text \<open>
  C4, amended: with five items and the cursor on row 0, in the layout that is not
  reversed \<^verbatim>\<open>vmove(1)\<close> moves the cursor to row 1, \<^verbatim>\<open>vmove(-1)\<close> then moves it
  back to row 0, and on row 0 \<^verbatim>\<open>vmove(-1)\<close> with cycling enabled wraps to row 4. The
  signs of the claim are those of the reversed layout: there \<^verbatim>\<open>vmove(-1)\<close> moves to
  row 1, \<^verbatim>\<open>vmove(1)\<close> moves back, and on row 0 \<^verbatim>\<open>vmove(1)\<close> with cycling wraps to
  row 4.
\<close>

theorem vmove_scenario:
  assumes "length (merger t) = 5" and "cy t = 0"
  shows "(\<not> reverse t \<longrightarrow>
            cy (vmove 1 t) = 1 \<and> cy (vmove (- 1) (vmove 1 t)) = 0
            \<and> (cycle t \<longrightarrow> cy (vmove (- 1) t) = 4))
       \<and> (reverse t \<longrightarrow>
            cy (vmove (- 1) t) = 1 \<and> cy (vmove 1 (vmove (- 1) t)) = 0
            \<and> (cycle t \<longrightarrow> cy (vmove 1 t) = 4))"
  using assms by (simp add: vmove_def vset_def Constrain_def Let_def)

theorem vmove_scenario_witness:
  "length (merger (demo_terminal\<lparr>merger := demo_list 5, cycle := True\<rparr>)) = 5
   \<and> cy (demo_terminal\<lparr>merger := demo_list 5, cycle := True\<rparr>) = 0
   \<and> \<not> reverse (demo_terminal\<lparr>merger := demo_list 5, cycle := True\<rparr>)
   \<and> cycle (demo_terminal\<lparr>merger := demo_list 5, cycle := True\<rparr>)
   \<and> cy (vmove 1 (demo_terminal\<lparr>merger := demo_list 5, cycle := True\<rparr>)) = 1
   \<and> cy (vmove (- 1) (vmove 1 (demo_terminal\<lparr>merger := demo_list 5, cycle := True\<rparr>))) = 0
   \<and> cy (vmove (- 1) (demo_terminal\<lparr>merger := demo_list 5, cycle := True\<rparr>)) = 4
   \<and> reverse (demo_terminal\<lparr>merger := demo_list 5, cycle := True, reverse := True\<rparr>)
   \<and> cy (vmove (- 1) (demo_terminal\<lparr>merger := demo_list 5, cycle := True, reverse := True\<rparr>)) = 1
   \<and> cy (vmove 1 (demo_terminal\<lparr>merger := demo_list 5, cycle := True, reverse := True\<rparr>)) = 4"
proof -
  let ?t = "demo_terminal\<lparr>merger := demo_list 5, cycle := True\<rparr>"
  let ?u = "demo_terminal\<lparr>merger := demo_list 5, cycle := True, reverse := True\<rparr>"
  have l: "length (merger ?t) = 5" and l': "length (merger ?u) = 5"
    by (simp_all add: demo_list_length)
  have c: "cy ?t = 0" and c': "cy ?u = 0"
    by (simp_all add: demo_terminal_fields)
  have r: "\<not> reverse ?t" and r': "reverse ?u"
    by (simp_all add: demo_terminal_fields)
  from l c r r' vmove_scenario [OF l c] vmove_scenario [OF l' c'] show ?thesis
    by simp
qed

text \<open>
  C5, as stated: for every list length, a destination that leaves the list is clamped into
  \<open>[0, count - 1]\<close> unless the cursor is on the boundary row, where it wraps. Not for the
  empty list, which has no row: with cycling enabled and the cursor at its initial row 0,
  the action \<^verbatim>\<open>actUp\<close> calls \<^verbatim>\<open>vmove(1)\<close> and leaves \<open>cy = -1\<close>, which is not in
  \<open>[0, count - 1]\<close>; from there, \<open>-1\<close> being \<open>count - 1\<close>, another \<^verbatim>\<open>vmove(1)\<close> does not
  wrap to row 0 either.
\<close>

theorem vmove_on_empty_list:
  "cycle (demo_terminal\<lparr>cycle := True\<rparr>) \<and> merger (demo_terminal\<lparr>cycle := True\<rparr>) = []
   \<and> cy (demo_terminal\<lparr>cycle := True\<rparr>) = 0
   \<and> Loop_switch demo_env actUp no_event 0 (at_switch (demo_terminal\<lparr>cycle := True\<rparr>))
        = Some (req [reqList] (at_switch (vmove 1 (demo_terminal\<lparr>cycle := True\<rparr>))))
   \<and> cy (vmove 1 (demo_terminal\<lparr>cycle := True\<rparr>)) = - 1
   \<and> \<not> (0 \<le> cy (vmove 1 (demo_terminal\<lparr>cycle := True\<rparr>))
          \<and> cy (vmove 1 (demo_terminal\<lparr>cycle := True\<rparr>))
              \<le> int (length (merger (demo_terminal\<lparr>cycle := True\<rparr>))) - 1)
   \<and> cy (vmove 1 (vmove 1 (demo_terminal\<lparr>cycle := True\<rparr>))) = - 1"
  by (simp add: Loop_switch_def at_switch_def req_def vmove_def vset_def Constrain_def Let_def
      demo_terminal_fields)

text \<open>
  C5, amended: with cycling enabled and a list of at least one item, \<^verbatim>\<open>vmove\<close>
  changes the cursor row only, and the new row is: the destination \<open>cy + d\<close> itself when it
  is a row of the list; row 0 when the destination is past the last row and the cursor is on
  the last row; the last row when the destination is past the last row and the cursor is
  elsewhere (clamped); the last row when the destination is negative and the cursor is on
  row 0; row 0 when the destination is negative and the cursor is elsewhere (clamped).
  \<open>d\<close> is the delta, negated in the reversed layout.
\<close>

theorem vmove_cycle:
  assumes "cycle t" and "merger t \<noteq> []"
  shows "vmove delta t =
     t\<lparr>cy := (let mx = int (length (merger t)) - 1;
                   dest = cy t + (if reverse t then - delta else delta)
               in if mx < dest then (if cy t = mx then 0 else mx)
                  else if dest < 0 then (if cy t = 0 then mx else 0)
                  else dest)\<rparr>"
  using assms by (auto simp: vmove_def vset_def Constrain_def Let_def)

theorem vmove_cycle_witness:
  "cycle (demo_terminal\<lparr>merger := demo_list 5, cycle := True, cy := 4\<rparr>)
   \<and> merger (demo_terminal\<lparr>merger := demo_list 5, cycle := True, cy := 4\<rparr>) \<noteq> []
   \<and> cy (vmove 3 (demo_terminal\<lparr>merger := demo_list 5, cycle := True, cy := 4\<rparr>)) = 0
   \<and> cy (vmove 3 (demo_terminal\<lparr>merger := demo_list 5, cycle := True, cy := 3\<rparr>)) = 4"
proof -
  let ?t = "demo_terminal\<lparr>merger := demo_list 5, cycle := True, cy := 4\<rparr>"
  let ?u = "demo_terminal\<lparr>merger := demo_list 5, cycle := True, cy := 3\<rparr>"
  have r: "\<not> reverse demo_terminal"
    by (simp add: demo_terminal_fields)
  have c: "cycle ?t" and c': "cycle ?u"
    by simp_all
  have m: "merger ?t \<noteq> []" and m': "merger ?u \<noteq> []"
    by (simp_all add: demo_list_def)
  from r c m vmove_cycle [OF c m, of 3] vmove_cycle [OF c' m', of 3] show ?thesis
    by (simp add: demo_list_length Let_def)
qed

subsection \<open>Slices and the instances\<close>

lemma slice_prefix: "0 \<le> n \<Longrightarrow> n \<le> len s \<Longrightarrow> slice s 0 n = Some (take (nat n) s)"
  by (simp add: slice_def len_def)

lemma slice_suffix: "0 \<le> n \<Longrightarrow> n \<le> len s \<Longrightarrow> slice s n (len s) = Some (drop (nat n) s)"
  by (simp add: slice_def len_def)

lemma go_Compile_patterns:
  "go_Compile pat_space_nonspace = Some (Cat (Class is_space) (Class (\<lambda>r. \<not> is_space r)))"
  "go_Compile pat_nonalnum_alnum = Some (Cat (Class (\<lambda>r. \<not> is_alnum r)) (Class is_alnum))"
  "go_Compile pat_alnum_nonalnum_or_last =
     Some (Alt (Cat (Class is_alnum) (Class (\<lambda>r. \<not> is_alnum r)))
               (Cat (Class (\<lambda>r. r \<noteq> 10)) EndOfText))"
  by (simp_all add: go_Compile_def pat_space_nonspace_def pat_nonalnum_alnum_def
      pat_alnum_nonalnum_or_last_def)

lemma go_regexp_fields:
  "Compile go_regexp = go_Compile"
  "FindAllStringIndex go_regexp r s = rx_find_all r 0 0 s"
  "FindStringIndex go_regexp r s = rx_find r 0 s"
  by (simp_all add: go_regexp_def)

lemma demo_env_fields:
  "MaxY demo_env = 24" "Keys demo_env = demo_keys" "Regexp demo_env = go_regexp"
  "Now demo_env n = int n" "MaxX demo_env = 80" "RuneWidth demo_env = demo_RuneWidth"
  "spinnerDuration demo_env = 200000000"
  by (simp_all add: demo_env_def)

lemma abc_terminal_fields:
  "input abc_terminal = [97, 98, 99]" "cx abc_terminal = 3" "yanked abc_terminal = []"
  by (simp_all add: abc_terminal_def demo_terminal_fields)

lemma accents_terminal_fields:
  "input accents_terminal = [233, 233, 32, 97]" "cx accents_terminal = 4"
  by (simp_all add: accents_terminal_def)

lemma findLastMatch_abc: "findLastMatch go_regexp pat_nonalnum_alnum [97, 98, 99] = - 1"
  by (simp add: findLastMatch_def go_regexp_fields go_Compile_patterns is_alnum_def)

lemma no_last_match_abc: "no_last_match go_regexp pat_nonalnum_alnum [97, 98, 99]"
  by (simp add: no_last_match_def go_regexp_fields go_Compile_patterns is_alnum_def)

lemma findLastMatch_accents:
  "findLastMatch go_regexp pat_nonalnum_alnum [233, 233, 32, 97] = 4"
  by (simp add: findLastMatch_def go_regexp_fields go_Compile_patterns is_alnum_def
      utf8_len_def byte_len_def)

lemma findLastMatch_none: "no_last_match R p str \<Longrightarrow> findLastMatch R p str = - 1"
  by (simp add: no_last_match_def findLastMatch_def split: option.splits)

lemma findFirstMatch_none: "no_first_match R p str \<Longrightarrow> findFirstMatch R p str = - 1"
  by (simp add: no_first_match_def findFirstMatch_def split: option.splits)

subsection \<open>Line editing\<close>

text \<open>
  C9: from the query \<^verbatim>\<open>"abc"\<close> with the cursor at position 3, backward-kill-word
  yields the empty query with the yank buffer holding \<^verbatim>\<open>"abc"\<close> (and the cursor at
  0); yank then restores the query \<^verbatim>\<open>"abc"\<close> with the cursor at position 3. Nothing
  else changes, and no request beyond the redrawing of the prompt is made.
\<close>

theorem backward_kill_word_then_yank:
  assumes "Regexp E = go_regexp" and "input t = [97, 98, 99]" and "cx t = 3"
  shows "Loop_switch E actBackwardKillWord ev k (at_switch t)
           = Some (at_switch (t\<lparr>cx := 0, yanked := [97, 98, 99], input := []\<rparr>))
       \<and> Loop_switch E actYank ev' k' (at_switch (t\<lparr>cx := 0, yanked := [97, 98, 99], input := []\<rparr>))
           = Some (at_switch (t\<lparr>cx := 3, yanked := [97, 98, 99], input := [97, 98, 99]\<rparr>))"
  using assms
  by (simp add: Loop_switch_def at_switch_def rubout_def slice_def len_def copySlice_def
      findLastMatch_abc)

theorem backward_kill_word_then_yank_witness:
  "Regexp demo_env = go_regexp \<and> input abc_terminal = [97, 98, 99] \<and> cx abc_terminal = 3
   \<and> Loop_switch demo_env actBackwardKillWord no_event 0 (at_switch abc_terminal)
        = Some (at_switch (abc_terminal\<lparr>cx := 0, yanked := [97, 98, 99], input := []\<rparr>))
   \<and> Loop_switch demo_env actYank no_event 0
          (at_switch (abc_terminal\<lparr>cx := 0, yanked := [97, 98, 99], input := []\<rparr>))
        = Some (at_switch (abc_terminal\<lparr>cx := 3, yanked := [97, 98, 99], input := [97, 98, 99]\<rparr>))"
proof -
  have r: "Regexp demo_env = go_regexp"
    by (simp add: demo_env_fields)
  have i: "input abc_terminal = [97, 98, 99]" and c: "cx abc_terminal = 3"
    by (simp_all add: abc_terminal_fields)
  from r i c backward_kill_word_then_yank [OF r i c, of no_event 0 no_event 0] show ?thesis
    by simp
qed

lemma vset_query: "cx (snd (vset pos t)) = cx t" "input (snd (vset pos t)) = input t"
  by (simp_all add: vset_def Let_def)

lemma vset_query_dest:
  "vset pos t = (ok, t') \<Longrightarrow> cx t' = cx t \<and> input t' = input t"
  by (auto simp: vset_def Let_def)

lemma vmove_query: "cx (vmove d t) = cx t" "input (vmove d t) = input t"
  by (simp_all add: vmove_def vset_query Let_def)

lemma selectItem_query:
  "cx (snd (selectItem E item t)) = cx t" "input (snd (selectItem E item t)) = input t"
  by (simp_all add: selectItem_def)

lemma toggleItem_query:
  "cx (toggleItem E item t) = cx t" "input (toggleItem E item t) = input t"
  by (simp_all add: toggleItem_def delete_selected_def selectItem_def)

lemma select_all_query:
  "cx (foldl (\<lambda>t item. snd (selectItem E item t)) t items) = cx t"
  "input (foldl (\<lambda>t item. snd (selectItem E item t)) t items) = input t"
  by (induction items arbitrary: t) (simp_all add: selectItem_query)

lemma deselect_all_query:
  "cx (foldl (\<lambda>t item. delete_selected (item_index item) t) t items) = cx t"
  "input (foldl (\<lambda>t item. delete_selected (item_index item) t) t items) = input t"
  by (induction items arbitrary: t) (simp_all add: delete_selected_def)

lemma toggle_all_query:
  "cx (foldl (\<lambda>t item. toggleItem E item t) t items) = cx t"
  "input (foldl (\<lambda>t item. toggleItem E item t) t items) = input t"
  by (induction items arbitrary: t) (simp_all add: toggleItem_query)

lemma toggle_query:
  "toggle E s = Some s' \<Longrightarrow>
   cx (terminal s') = cx (terminal s) \<and> input (terminal s') = input (terminal s)"
  by (auto simp: toggle_def toggleY_def req_def toggleItem_query split: if_splits Option.bind_splits)

lemma cursor_ok_cong:
  "cx t' = cx t \<Longrightarrow> input t' = input t \<Longrightarrow> cursor_ok t' = cursor_ok t"
  by (simp add: cursor_ok_def)

text \<open>
  Every action other than the five word motions, applied in a state whose cursor is
  inside the query, leaves the cursor inside the query (when it does not panic).
\<close>

lemma Loop_switch_cursor:
  assumes "cursor_ok (terminal s)"
    and "action \<notin> {actBackwardWord, actForwardWord, actKillWord, actUnixWordRubout,
                     actBackwardKillWord}"
    and "Loop_switch E action ev k s = Some s'"
  shows "cursor_ok (terminal s')"
proof (cases action)
  case actMouse
  with assms show ?thesis
    by (auto simp: Loop_switch_def cursor_ok_def Let_def req_def vmove_query vset_query
        Constrain_def len_def
        split: if_splits Option.bind_splits prod.splits dest!: toggle_query vset_query_dest)
next
  case actSelectAll
  with assms show ?thesis
    by (auto simp: Loop_switch_def cursor_ok_def req_def Let_def select_all_query
        split: if_splits)
next
  case actDeselectAll
  with assms show ?thesis
    by (auto simp: Loop_switch_def cursor_ok_def req_def Let_def deselect_all_query
        split: if_splits)
next
  case actToggleAll
  with assms show ?thesis
    by (auto simp: Loop_switch_def cursor_ok_def req_def Let_def toggle_all_query
        split: if_splits)
qed (use assms in \<open>auto simp: Loop_switch_def cursor_ok_def Let_def req_def vmove_query
        delChar_def slice_def len_def copySlice_def
        split: if_splits Option.bind_splits prod.splits option.splits dest!: toggle_query\<close>)

text \<open>
  The word motions on a query whose runes all take one byte in UTF-8: the byte indices
  that package regexp reports are then rune indices, the action does not panic and the
  cursor stays inside the query.
\<close>

lemma utf8_len_pos: "1 \<le> utf8_len r"
  by (simp add: utf8_len_def)

lemma byte_len_Cons: "byte_len (c # cs) = utf8_len c + byte_len cs"
  by (simp add: byte_len_def)

lemma byte_len_nonneg: "0 \<le> byte_len s"
  using utf8_len_pos by (induction s) (simp add: byte_len_def, simp add: byte_len_Cons, smt (verit))

lemma rx_find_all_bounds:
  "m \<in> set (rx_find_all r pos skip s) \<Longrightarrow> pos \<le> fst m \<and> fst m < pos + byte_len s"
proof (induction s arbitrary: pos skip)
  case Nil
  then show ?case by simp
next
  case (Cons c cs)
  have rec: "m \<in> set (rx_find_all r (pos + utf8_len c) k cs) \<Longrightarrow>
      pos \<le> fst m \<and> fst m < pos + byte_len (c # cs)" for k
    using Cons.IH [of "pos + utf8_len c" k] utf8_len_pos [of c]
    by (simp add: byte_len_Cons)
  have here: "pos \<le> pos \<and> pos < pos + byte_len (c # cs)"
    using utf8_len_pos [of c] byte_len_nonneg [of cs] by (simp add: byte_len_Cons)
  from Cons.prems rec here show ?case
    by (auto split: if_splits list.splits)
qed

lemma rx_find_bounds:
  "rx_match r [] = [] \<Longrightarrow> rx_find r pos s = Some m \<Longrightarrow>
   pos \<le> fst m \<and> fst m < pos + byte_len s"
proof (induction s arbitrary: pos)
  case Nil
  then show ?case by simp
next
  case (Cons c cs)
  show ?case
  proof (cases "rx_match r (c # cs)")
    case Nil
    with Cons.prems have "rx_find r (pos + utf8_len c) cs = Some m"
      by simp
    from Cons.IH [OF Cons.prems(1) this] utf8_len_pos [of c] show ?thesis
      by (simp add: byte_len_Cons)
  next
    case (Cons rest rests)
    with Cons.prems utf8_len_pos [of c] byte_len_nonneg [of cs] show ?thesis
      by (auto simp: byte_len_Cons)
  qed
qed

lemma findLastMatch_bounds:
  "- 1 \<le> findLastMatch go_regexp p s \<and> findLastMatch go_regexp p s < byte_len s"
proof (cases "go_Compile p")
  case None
  with byte_len_nonneg [of s] show ?thesis
    by (simp add: findLastMatch_def go_regexp_def)
next
  case (Some r)
  show ?thesis
  proof (cases "rx_find_all r 0 0 s = []")
    case True
    with Some byte_len_nonneg [of s] show ?thesis
      by (simp add: findLastMatch_def go_regexp_def)
  next
    case False
    then have "last (rx_find_all r 0 0 s) \<in> set (rx_find_all r 0 0 s)"
      by simp
    from rx_find_all_bounds [OF this] Some False show ?thesis
      by (simp add: findLastMatch_def go_regexp_def)
  qed
qed

lemma findFirstMatch_bounds:
  "- 1 \<le> findFirstMatch go_regexp pat_alnum_nonalnum_or_last s
   \<and> findFirstMatch go_regexp pat_alnum_nonalnum_or_last s < byte_len s"
proof -
  let ?r = "Alt (Cat (Class is_alnum) (Class (\<lambda>r. \<not> is_alnum r)))
               (Cat (Class (\<lambda>r. r \<noteq> 10)) EndOfText)"
  have e: "rx_match ?r [] = []"
    by simp
  show ?thesis
  proof (cases "rx_find ?r 0 s")
    case None
    with byte_len_nonneg [of s] show ?thesis
      by (simp add: findFirstMatch_def go_regexp_def go_Compile_patterns)
  next
    case (Some m)
    from rx_find_bounds [OF e Some] Some show ?thesis
      by (simp add: findFirstMatch_def go_regexp_def go_Compile_patterns)
  qed
qed

lemma byte_len_ascii: "\<forall>r\<in>set s. utf8_len r = 1 \<Longrightarrow> byte_len s = int (length s)"
  by (induction s) (simp_all add: byte_len_def)

lemma byte_len_take_ascii:
  "\<forall>r\<in>set s. utf8_len r = 1 \<Longrightarrow> 0 \<le> n \<Longrightarrow> n \<le> len s \<Longrightarrow> byte_len (take (nat n) s) = n"
  using byte_len_ascii [of "take (nat n) s"] by (auto simp: len_def dest: in_set_takeD)

lemma byte_len_drop_ascii:
  "\<forall>r\<in>set s. utf8_len r = 1 \<Longrightarrow> 0 \<le> n \<Longrightarrow> n \<le> len s \<Longrightarrow> byte_len (drop (nat n) s) = len s - n"
  using byte_len_ascii [of "drop (nat n) s"] by (auto simp: len_def dest: in_set_dropD)

lemma rubout_cursor_ascii:
  assumes "cursor_ok t" and "Regexp E = go_regexp" and "\<forall>r\<in>set (input t). utf8_len r = 1"
  shows "\<exists>t'. rubout E p t = Some t' \<and> cursor_ok t'"
proof -
  from assms(1) have c: "0 \<le> cx t" "cx t \<le> len (input t)"
    by (simp_all add: cursor_ok_def)
  let ?n = "findLastMatch go_regexp p (take (nat (cx t)) (input t)) + 1"
  from findLastMatch_bounds [of p "take (nat (cx t)) (input t)"]
    byte_len_take_ascii [OF assms(3) c]
  have n: "0 \<le> ?n" "?n \<le> cx t"
    by simp_all
  with c assms(2) show ?thesis
    by (simp add: rubout_def slice_prefix slice_suffix slice_def len_def copySlice_def
        cursor_ok_def Let_def)
qed

lemma Loop_switch_cursor_ascii:
  assumes "cursor_ok (terminal s)" and "Regexp E = go_regexp"
    and "\<forall>r\<in>set (input (terminal s)). utf8_len r = 1"
    and "action \<in> {actBackwardWord, actForwardWord, actKillWord, actUnixWordRubout,
                     actBackwardKillWord}"
  shows "\<exists>s'. Loop_switch E action ev k s = Some s' \<and> cursor_ok (terminal s')"
proof -
  let ?t = "terminal s"
  from assms(1) have c: "0 \<le> cx ?t" "cx ?t \<le> len (input ?t)"
    by (simp_all add: cursor_ok_def)
  note r = rubout_cursor_ascii [OF assms(1,2,3)]
  let ?b = "findLastMatch go_regexp pat_nonalnum_alnum (take (nat (cx ?t)) (input ?t))"
  let ?f = "findFirstMatch go_regexp pat_alnum_nonalnum_or_last (drop (nat (cx ?t)) (input ?t))"
  from findLastMatch_bounds [of pat_nonalnum_alnum "take (nat (cx ?t)) (input ?t)"]
    byte_len_take_ascii [OF assms(3) c]
  have b: "- 1 \<le> ?b" "?b < cx ?t"
    by simp_all
  from findFirstMatch_bounds [of "drop (nat (cx ?t)) (input ?t)"]
    byte_len_drop_ascii [OF assms(3) c]
  have f: "- 1 \<le> ?f" "?f < len (input ?t) - cx ?t"
    by simp_all
  from assms(4) consider "action = actBackwardWord" | "action = actForwardWord"
    | "action = actKillWord" | "action = actUnixWordRubout" | "action = actBackwardKillWord"
    by blast
  then show ?thesis
  proof cases
    case 1
    with c b assms(2) show ?thesis
      by (simp add: Loop_switch_def slice_prefix cursor_ok_def Let_def)
  next
    case 2
    with c f assms(2) show ?thesis
      by (simp add: Loop_switch_def slice_suffix cursor_ok_def Let_def)
  next
    case 3
    with c f assms(2) show ?thesis
      by (simp add: Loop_switch_def slice_suffix slice_prefix slice_def cursor_ok_def len_def
          copySlice_def Let_def)
  next
    case 4
    with r [of pat_space_nonspace] assms(1) show ?thesis
      by (auto simp: Loop_switch_def Let_def)
  next
    case 5
    with r [of pat_nonalnum_alnum] assms(1) show ?thesis
      by (auto simp: Loop_switch_def Let_def)
  qed
qed

text \<open>
  C2, at the failing input: the query of four code points U+00E9 U+00E9 space a, with the
  cursor at position 4, satisfies \<open>0 \<le> cx \<le> len(input)\<close>. \<^verbatim>\<open>findLastMatch\<close> returns
  the byte index 4 of the space (each U+00E9 is two bytes), and backward-word sets the
  cursor to 5, beyond the four code points of the query. Backward-kill-word on the same
  state evaluates \<^verbatim>\<open>t.input[5:4]\<close> and panics.
\<close>

theorem backward_word_beyond_query:
  "cursor_ok accents_terminal \<and> \<not> cursor_ok (accents_terminal\<lparr>cx := 5\<rparr>)
   \<and> 0 \<le> cx accents_terminal \<and> cx accents_terminal \<le> len (input accents_terminal)
   \<and> Loop_switch demo_env actBackwardWord no_event 0 (at_switch accents_terminal)
        = Some (at_switch (accents_terminal\<lparr>cx := 5\<rparr>))
   \<and> len (input (accents_terminal\<lparr>cx := 5\<rparr>)) = 4
   \<and> cx (accents_terminal\<lparr>cx := 5\<rparr>) > len (input (accents_terminal\<lparr>cx := 5\<rparr>))
   \<and> Loop_switch demo_env actBackwardKillWord no_event 0 (at_switch accents_terminal) = None"
  by (simp add: Loop_switch_def at_switch_def rubout_def slice_def len_def copySlice_def
      findLastMatch_accents demo_env_fields accents_terminal_fields cursor_ok_def)

text \<open>
  C8, as stated: when the pattern finds no match, a word motion is a no-op. It is not: in
  \<^verbatim>\<open>"abc"\<close> with the cursor at position 3 the pattern of backward-word has no match,
  and backward-word moves the cursor to 0; backward-kill-word empties the query and
  stores \<^verbatim>\<open>"abc"\<close> in the yank buffer, which was empty.
\<close>

theorem word_motion_without_match_moves:
  "no_last_match (Regexp demo_env) pat_nonalnum_alnum
     (take (nat (cx abc_terminal)) (input abc_terminal))
   \<and> cx abc_terminal = 3 \<and> input abc_terminal = [97, 98, 99] \<and> yanked abc_terminal = []
   \<and> Loop_switch demo_env actBackwardWord no_event 0 (at_switch abc_terminal)
        = Some (at_switch (abc_terminal\<lparr>cx := 0\<rparr>))
   \<and> cx (abc_terminal\<lparr>cx := 0\<rparr>) \<noteq> cx abc_terminal
   \<and> Loop_switch demo_env actBackwardKillWord no_event 0 (at_switch abc_terminal)
        = Some (at_switch (abc_terminal\<lparr>cx := 0, yanked := [97, 98, 99], input := []\<rparr>))"
  by (simp add: Loop_switch_def at_switch_def rubout_def slice_def len_def copySlice_def
      findLastMatch_abc no_last_match_abc demo_env_fields abc_terminal_fields)

lemma rubout_none:
  assumes "0 < cx t" and "cx t \<le> len (input t)"
    and "no_last_match (Regexp E) p (take (nat (cx t)) (input t))"
  shows "rubout E p t =
     Some (t\<lparr>cx := 0, yanked := take (nat (cx t)) (input t),
              input := drop (nat (cx t)) (input t)\<rparr>)"
  using assms
  by (simp add: rubout_def slice_prefix slice_suffix findLastMatch_none copySlice_def)

text \<open>
  C8, amended: in a state with \<open>0 \<le> cx \<le> len(input)\<close>, when the boundary pattern
  fails to compile or finds no match in the relevant portion of the query, no word-motion
  action raises a failure or terminates the session (the result is a state, with the
  requests and the loop flag as they were), and:
  forward-word and kill-word are no-ops;
  backward-word moves the cursor to position 0 and leaves the query and the yank buffer
  unchanged;
  backward-kill-word and unix-word-rubout, when the cursor is not at position 0, delete
  the whole text before the cursor, store it in the yank buffer and move the cursor to
  position 0 (with the cursor at 0 they are no-ops).
\<close>

theorem word_motion_without_match:
  assumes "0 \<le> cx t" and "cx t \<le> len (input t)" and "terminal s = t"
  shows "(no_first_match (Regexp E) pat_alnum_nonalnum_or_last (drop (nat (cx t)) (input t)) \<longrightarrow>
            Loop_switch E actForwardWord ev k s = Some s
            \<and> Loop_switch E actKillWord ev k s = Some s)
       \<and> (no_last_match (Regexp E) pat_nonalnum_alnum (take (nat (cx t)) (input t)) \<longrightarrow>
            Loop_switch E actBackwardWord ev k s = Some (s\<lparr>terminal := t\<lparr>cx := 0\<rparr>\<rparr>)
            \<and> Loop_switch E actBackwardKillWord ev k s =
                Some (if cx t > 0
                      then s\<lparr>terminal := t\<lparr>cx := 0, yanked := take (nat (cx t)) (input t),
                                            input := drop (nat (cx t)) (input t)\<rparr>\<rparr>
                      else s))
       \<and> (no_last_match (Regexp E) pat_space_nonspace (take (nat (cx t)) (input t)) \<longrightarrow>
            Loop_switch E actUnixWordRubout ev k s =
                Some (if cx t > 0
                      then s\<lparr>terminal := t\<lparr>cx := 0, yanked := take (nat (cx t)) (input t),
                                            input := drop (nat (cx t)) (input t)\<rparr>\<rparr>
                      else s))"
proof (intro conjI impI)
  assume "no_first_match (Regexp E) pat_alnum_nonalnum_or_last (drop (nat (cx t)) (input t))"
  then have f: "findFirstMatch (Regexp E) pat_alnum_nonalnum_or_last
                  (drop (nat (cx t)) (input t)) = - 1"
    by (rule findFirstMatch_none)
  from assms f show "Loop_switch E actForwardWord ev k s = Some s"
    by (simp add: Loop_switch_def slice_suffix)
  from assms f show "Loop_switch E actKillWord ev k s = Some s"
    by (simp add: Loop_switch_def slice_suffix)
next
  assume "no_last_match (Regexp E) pat_nonalnum_alnum (take (nat (cx t)) (input t))"
  then show "Loop_switch E actBackwardWord ev k s = Some (s\<lparr>terminal := t\<lparr>cx := 0\<rparr>\<rparr>)"
    using assms by (simp add: Loop_switch_def slice_prefix findLastMatch_none)
next
  assume "no_last_match (Regexp E) pat_nonalnum_alnum (take (nat (cx t)) (input t))"
  then show "Loop_switch E actBackwardKillWord ev k s =
                Some (if cx t > 0
                      then s\<lparr>terminal := t\<lparr>cx := 0, yanked := take (nat (cx t)) (input t),
                                            input := drop (nat (cx t)) (input t)\<rparr>\<rparr>
                      else s)"
    using assms by (simp add: Loop_switch_def rubout_none)
next
  assume "no_last_match (Regexp E) pat_space_nonspace (take (nat (cx t)) (input t))"
  then show "Loop_switch E actUnixWordRubout ev k s =
                Some (if cx t > 0
                      then s\<lparr>terminal := t\<lparr>cx := 0, yanked := take (nat (cx t)) (input t),
                                            input := drop (nat (cx t)) (input t)\<rparr>\<rparr>
                      else s)"
    using assms by (simp add: Loop_switch_def rubout_none)
qed

theorem word_motion_without_match_witness:
  "0 \<le> cx abc_terminal \<and> cx abc_terminal \<le> len (input abc_terminal)
   \<and> terminal (at_switch abc_terminal) = abc_terminal
   \<and> no_first_match (Regexp demo_env) pat_alnum_nonalnum_or_last
        (drop (nat (cx abc_terminal)) (input abc_terminal))
   \<and> no_last_match (Regexp demo_env) pat_nonalnum_alnum
        (take (nat (cx abc_terminal)) (input abc_terminal))
   \<and> no_last_match (Regexp demo_env) pat_space_nonspace
        (take (nat (cx abc_terminal)) (input abc_terminal))
   \<and> Loop_switch demo_env actForwardWord no_event 0 (at_switch abc_terminal)
        = Some (at_switch abc_terminal)
   \<and> Loop_switch demo_env actKillWord no_event 0 (at_switch abc_terminal)
        = Some (at_switch abc_terminal)
   \<and> Loop_switch demo_env actBackwardWord no_event 0 (at_switch abc_terminal)
        = Some (at_switch abc_terminal\<lparr>terminal := abc_terminal\<lparr>cx := 0\<rparr>\<rparr>)
   \<and> Loop_switch demo_env actUnixWordRubout no_event 0 (at_switch abc_terminal)
        = Some (at_switch abc_terminal\<lparr>terminal :=
                  abc_terminal\<lparr>cx := 0, yanked := [97, 98, 99], input := []\<rparr>\<rparr>)"
proof -
  have a: "0 \<le> cx abc_terminal" and b: "cx abc_terminal \<le> len (input abc_terminal)"
    by (simp_all add: abc_terminal_fields len_def)
  have c: "terminal (at_switch abc_terminal) = abc_terminal"
    by (simp add: at_switch_def)
  have f: "no_first_match (Regexp demo_env) pat_alnum_nonalnum_or_last
        (drop (nat (cx abc_terminal)) (input abc_terminal))"
    by (simp add: no_first_match_def demo_env_fields go_regexp_fields go_Compile_patterns
        abc_terminal_fields)
  have l: "no_last_match (Regexp demo_env) pat_nonalnum_alnum
        (take (nat (cx abc_terminal)) (input abc_terminal))"
    by (simp add: demo_env_fields abc_terminal_fields no_last_match_abc)
  have l': "no_last_match (Regexp demo_env) pat_space_nonspace
        (take (nat (cx abc_terminal)) (input abc_terminal))"
    by (simp add: no_last_match_def demo_env_fields go_regexp_fields go_Compile_patterns
        abc_terminal_fields is_space_def)
  from a b c f l l' word_motion_without_match [OF a b c, of demo_env no_event 0]
  show ?thesis
    by (simp add: abc_terminal_fields)
qed

subsection \<open>Termination of the session\<close>

text \<open>\<^verbatim>\<open>output\<close> panics in one case only: nothing is selected, the list is not empty
  and the cursor row is negative.\<close>

lemma output_None: "output K t = None \<longleftrightarrow> selected t = [] \<and> merger t \<noteq> [] \<and> cy t < 0"
  by (auto simp: output_def Get_def len_def Let_def)

lemma output_suppress: "output K (t\<lparr>suppress := b\<rparr>) = output K t"
  by (simp add: output_def Let_def)

text \<open>The request \<^verbatim>\<open>reqPrompt\<close> changes no field and cannot panic.\<close>

lemma consume_prompt: "consume E (reqPrompt # rs) t = consume E rs t"
  by (simp add: printInfo_def)

text \<open>\<^verbatim>\<open>placeCursor\<close> panics exactly when the cursor is not a position of the query.\<close>

lemma placeCursor_None: "placeCursor E t = None \<longleftrightarrow> \<not> cursor_ok t"
  by (auto simp: placeCursor_def cursor_ok_def slice_def len_def)

text \<open>
  A batch with \<^verbatim>\<open>reqQuit\<close> and without \<^verbatim>\<open>reqClose\<close> never writes to the standard
  output and never exits with status 0: the process exits with status 1, unless painting
  for a request handled before \<^verbatim>\<open>reqQuit\<close> panics. When the other requests of the
  batch are \<^verbatim>\<open>reqPrompt\<close> and \<^verbatim>\<open>reqRefresh\<close>, as in the batch that the loop posts,
  nothing can panic.
\<close>

lemma consume_quit_or_panic:
  "reqQuit \<in> set rs \<Longrightarrow> reqClose \<notin> set rs \<Longrightarrow>
   consume E rs t = Exited 1 [] \<or> consume E rs t = Panicked"
  by (induction rs arbitrary: t) (auto split: EventType.splits option.splits)

lemma consume_quit:
  "reqQuit \<in> set rs \<Longrightarrow> set rs \<subseteq> {reqPrompt, reqRefresh, reqQuit} \<Longrightarrow>
   consume E rs t = Exited 1 []"
proof (induction rs arbitrary: t)
  case Nil
  then show ?case by simp
next
  case (Cons r rs)
  show ?case
  proof (cases r)
    case reqPrompt
    with Cons.prems Cons.IH [of t] show ?thesis
      by (simp add: consume_prompt del: consume.simps(2))
  next
    case reqRefresh
    with Cons.prems Cons.IH [of "t\<lparr>suppress := False\<rparr>"] show ?thesis
      by simp
  next
    case reqQuit
    then show ?thesis by simp
  qed (use Cons.prems in auto)
qed

text \<open>
  A batch of \<^verbatim>\<open>reqClose\<close>, \<^verbatim>\<open>reqPrompt\<close> and \<^verbatim>\<open>reqRefresh\<close> ends in
  \<^verbatim>\<open>output\<close>: exit status 0 with the lines written, or the panic of \<^verbatim>\<open>output\<close>.
\<close>

lemma consume_close:
  "reqClose \<in> set rs \<Longrightarrow> set rs \<subseteq> {reqPrompt, reqRefresh, reqClose} \<Longrightarrow>
   consume E rs t = (case output (Keys E) t of None \<Rightarrow> Panicked | Some ls \<Rightarrow> Exited 0 ls)"
proof (induction rs arbitrary: t)
  case Nil
  then show ?case by simp
next
  case (Cons r rs)
  show ?case
  proof (cases r)
    case reqPrompt
    with Cons.prems Cons.IH [of t] show ?thesis
      by (simp add: consume_prompt del: consume.simps(2))
  next
    case reqRefresh
    with Cons.prems Cons.IH [of "t\<lparr>suppress := False\<rparr>"] show ?thesis
      by (simp add: output_suppress)
  next
    case reqClose
    then show ?thesis by simp
  qed (use Cons.prems in auto)
qed

text \<open>A batch of \<^verbatim>\<open>reqPrompt\<close> and \<^verbatim>\<open>reqRefresh\<close> ends in \<^verbatim>\<open>placeCursor\<close>: the
  process goes on when the cursor is a position of the query, and panics otherwise.\<close>

lemma consume_idle:
  "set rs \<subseteq> {reqPrompt, reqRefresh} \<Longrightarrow>
   (cursor_ok t \<longrightarrow> (\<exists>t'. consume E rs t = Running t'))
   \<and> (\<not> cursor_ok t \<longrightarrow> consume E rs t = Panicked)"
proof (induction rs arbitrary: t)
  case Nil
  then show ?case
    using placeCursor_None [of E t] by (auto split: option.splits)
next
  case (Cons r rs)
  show ?case
  proof (cases r)
    case reqPrompt
    with Cons.prems Cons.IH [of t] show ?thesis
      by (simp add: consume_prompt del: consume.simps(2))
  next
    case reqRefresh
    with Cons.prems Cons.IH [of "t\<lparr>suppress := False\<rparr>"] show ?thesis
      by (simp add: cursor_ok_def)
  qed (use Cons.prems in auto)
qed

text \<open>
  When no key of \<^verbatim>\<open>t.expect\<close> matches the event, the switch is entered in the state
  \<open>at_switch t\<close>.
\<close>

lemma Loop_iteration_at_switch:
  "find (\<lambda>key. keyMatch (Keys E) key event) (expect t) = None \<Longrightarrow>
   \<exists>action mapkey. Loop_iteration E event t = Loop_switch E action event mapkey (at_switch t)"
  by (auto simp: Loop_iteration_def at_switch_def Let_def split: prod.splits)

text \<open>
  The delete-char action with the cursor at position 0 on an empty query requests
  \<^verbatim>\<open>reqQuit\<close>, and so does abort; the batch posted, handled in either order, makes the
  process exit with status 1 without a line on the standard output.
\<close>

lemma delete_char_on_empty_query:
  assumes "input t = []" and "cx t = 0" and "mset rs = mset [reqPrompt, reqQuit]"
  shows "Loop_switch E actDeleteChar ev k (at_switch t) = Some (req [reqQuit] (at_switch t))"
    and "Loop_switch E actAbort ev k (at_switch t) = Some (req [reqQuit] (at_switch t))"
    and "posted (req [reqQuit] (at_switch t)) = [reqPrompt, reqQuit]"
    and "\<not> looping (req [reqQuit] (at_switch t))"
    and "consume E rs t' = Exited 1 []"
proof -
  show "Loop_switch E actDeleteChar ev k (at_switch t) = Some (req [reqQuit] (at_switch t))"
    using assms(1,2) by (simp add: Loop_switch_def delChar_def at_switch_def len_def)
  show "Loop_switch E actAbort ev k (at_switch t) = Some (req [reqQuit] (at_switch t))"
    by (simp add: Loop_switch_def)
  show "posted (req [reqQuit] (at_switch t)) = [reqPrompt, reqQuit]"
    and "\<not> looping (req [reqQuit] (at_switch t))"
    by (simp_all add: posted_def req_def at_switch_def)
  from assms(3) have "set rs = {reqPrompt, reqQuit}"
    using mset_eq_setD by fastforce
  then show "consume E rs t' = Exited 1 []"
    by (intro consume_quit) auto
qed

text \<open>
  Accept requests \<^verbatim>\<open>reqClose\<close>; the batch posted, handled in either order, makes the
  process exit with status 0 after writing the output, except in the one state in which
  \<^verbatim>\<open>output\<close> panics.
\<close>

lemma accept_exits:
  assumes "mset rs = mset [reqPrompt, reqClose]"
  shows "Loop_switch E actAccept ev k (at_switch t) = Some (req [reqClose] (at_switch t))"
    and "posted (req [reqClose] (at_switch t)) = [reqPrompt, reqClose]"
    and "\<not> looping (req [reqClose] (at_switch t))"
    and "\<not> (selected t' = [] \<and> merger t' \<noteq> [] \<and> cy t' < 0) \<Longrightarrow>
         \<exists>ls. output (Keys E) t' = Some ls \<and> consume E rs t' = Exited 0 ls"
    and "selected t' = [] \<and> merger t' \<noteq> [] \<and> cy t' < 0 \<Longrightarrow> consume E rs t' = Panicked"
proof -
  show "Loop_switch E actAccept ev k (at_switch t) = Some (req [reqClose] (at_switch t))"
    by (simp add: Loop_switch_def)
  show "posted (req [reqClose] (at_switch t)) = [reqPrompt, reqClose]"
    and "\<not> looping (req [reqClose] (at_switch t))"
    by (simp_all add: posted_def req_def at_switch_def)
  from assms have "set rs = {reqPrompt, reqClose}"
    using mset_eq_setD by fastforce
  then have c: "consume E rs t'
      = (case output (Keys E) t' of None \<Rightarrow> Panicked | Some ls \<Rightarrow> Exited 0 ls)"
    by (intro consume_close) auto
  show "\<exists>ls. output (Keys E) t' = Some ls \<and> consume E rs t' = Exited 0 ls"
    if "\<not> (selected t' = [] \<and> merger t' \<noteq> [] \<and> cy t' < 0)"
    using that c output_None [of "Keys E" t'] by (cases "output (Keys E) t'") auto
  show "consume E rs t' = Panicked" if "selected t' = [] \<and> merger t' \<noteq> [] \<and> cy t' < 0"
    using that c output_None [of "Keys E" t'] by simp
qed

text \<open>
  Delete-char on a query that is not empty, the cursor a position of it, requests neither
  \<^verbatim>\<open>reqClose\<close> nor \<^verbatim>\<open>reqQuit\<close>: the loop goes on, the cursor is still a position of
  the query, and the consumer, handling the batch posted, does not exit.
\<close>

lemma delChar_cursor:
  assumes "input t \<noteq> []" and "cursor_ok t"
  shows "\<exists>deleted u. delChar t = Some (deleted, u) \<and> cursor_ok u \<and> (deleted \<or> cx u \<noteq> 0)"
proof (cases "cx t < len (input t)")
  case True
  let ?u = "t\<lparr>input := take (nat (cx t)) (input t) @ drop (nat (cx t + 1)) (input t)\<rparr>"
  from True assms have "delChar t = Some (True, ?u)"
    by (simp add: delChar_def cursor_ok_def slice_def len_def)
  moreover from True assms(2) have "cursor_ok ?u"
    by (simp add: cursor_ok_def len_def)
  ultimately show ?thesis
    by blast
next
  case False
  with assms have "delChar t = Some (False, t)" and "cx t \<noteq> 0"
    by (simp_all add: delChar_def cursor_ok_def len_def)
  with assms(2) show ?thesis
    by blast
qed

lemma delete_char_goes_on:
  assumes "input t \<noteq> []" and "cursor_ok t"
  shows "\<exists>s. Loop_switch E actDeleteChar ev k (at_switch t) = Some s
            \<and> posted s = [reqPrompt] \<and> looping s \<and> cursor_ok (terminal s)
            \<and> (\<exists>t'. consume E (posted s) (terminal s) = Running t')"
proof -
  from delChar_cursor [OF assms] obtain deleted u
    where d: "delChar t = Some (deleted, u)" and c: "cursor_ok u" and n: "deleted \<or> cx u \<noteq> 0"
    by blast
  from d n have s: "Loop_switch E actDeleteChar ev k (at_switch t) = Some (at_switch u)"
    by (auto simp: Loop_switch_def at_switch_def)
  have p: "posted (at_switch u) = [reqPrompt]" "looping (at_switch u)"
    "terminal (at_switch u) = u"
    by (simp_all add: posted_def at_switch_def)
  from consume_idle [of "[reqPrompt]" u E] c
  obtain t' where "consume E [reqPrompt] u = Running t'"
    by auto
  with s p c show ?thesis
    by auto
qed

lemma repopulated_terminal_fields:
  "selected repopulated_terminal = []" "merger repopulated_terminal = demo_list 3"
  "cy repopulated_terminal = - 1" "\<not> inlineInfo repopulated_terminal"
  "expect repopulated_terminal = []" "\<not> printQuery repopulated_terminal"
  "offset repopulated_terminal = 0" "cx repopulated_terminal = 0"
  "input repopulated_terminal = []"
  by (simp_all add: repopulated_terminal_def UpdateList_def constrain_def Constrain_def
      maxItems_def Let_def demo_terminal_fields)

lemma printList_rows_below:
  "\<forall>i\<in>set rows. cnt \<le> i \<Longrightarrow> printList_rows E t cnt rows = Some ()"
  by (induction rows) simp_all

text \<open>The loop of \<^verbatim>\<open>printList\<close> goes through when every row that shows an item finds
  it in the list and paints it.\<close>

lemma printList_rows_ok:
  "\<forall>i\<in>set rows. i < cnt \<longrightarrow>
      (\<exists>item. Get (merger t) (i + offset t) = Some item
         \<and> printItem E t item (i = cy t - offset t) \<noteq> None) \<Longrightarrow>
   printList_rows E t cnt rows = Some ()"
  by (induction rows) auto

lemma demo_item_print:
  "printItem demo_env t (demo_item n [c]) current \<noteq> None" if "32 \<le> c" "c < 127"
  using that
  by (simp add: printItem_def printHighlighted_def printHighlighted_trim_def
      printHighlighted_paint_def demo_item_def colorOffsets_def displayWidth_def runeWidth_def
      demo_env_fields demo_RuneWidth_def Let_def slice_def len_def processTabs_def)

lemma demo_list_Get:
  "0 \<le> i \<Longrightarrow> i < int n \<Longrightarrow> Get (demo_list n) i = Some (demo_item (nat i) [97 + i])"
  by (simp add: Get_def len_def demo_list_def)

text \<open>Painting the three items puts the cursor on row 0.\<close>

lemma printList_repopulated:
  "printList demo_env repopulated_terminal = Some (constrain 24 repopulated_terminal)"
  "cy (constrain 24 repopulated_terminal) = 0"
proof -
  let ?t = "constrain 24 repopulated_terminal"
  have f: "cy ?t = 0" "offset ?t = 0" "merger ?t = demo_list 3" "maxItems 24 ?t = 22"
    by (simp_all add: constrain_def Constrain_def maxItems_def Let_def
        repopulated_terminal_fields demo_list_length)
  have "printList_rows demo_env ?t 3 (map int [0..<22]) = Some ()"
  proof (intro printList_rows_ok ballI impI)
    fix i assume "i \<in> set (map int [0..<22])" and "i < 3"
    then have i: "0 \<le> i" "i < int 3"
      by auto
    from demo_list_Get [OF i] demo_item_print [of "97 + i" ?t "nat i"] i
    show "\<exists>item. Get (merger ?t) (i + offset ?t) = Some item
         \<and> printItem demo_env ?t item (i = cy ?t - offset ?t) \<noteq> None"
      by (simp add: f)
  qed
  then show "printList demo_env repopulated_terminal = Some ?t"
    by (simp add: printList_def Let_def demo_env_fields f len_def demo_list_length)
  show "cy ?t = 0"
    by (rule f)
qed

text \<open>
  C7: accept does not always terminate with exit status 0. On the initial terminal the
  first painting of the empty list leaves \<open>cy = -1\<close> (\<^verbatim>\<open>constrain\<close> clamps into the
  empty range \<open>[0, -1]\<close>). When \<^verbatim>\<open>UpdateList\<close> has then stored three items and accept is
  handled before the list is painted again, the loop posts \<^verbatim>\<open>reqPrompt\<close> and
  \<^verbatim>\<open>reqClose\<close>, and \<^verbatim>\<open>output\<close>, which tests \<^verbatim>\<open>cnt > 0 && cnt > t.cy\<close> only, calls
  \<^verbatim>\<open>t.merger.Get(-1)\<close>: the process dies of the panic instead of printing the item and
  exiting with status 0. Had \<^verbatim>\<open>reqList\<close> been handled first, the cursor would be on row
  0 and the process would print the first item and exit with status 0. The action
  \<^verbatim>\<open>actExecute\<close>, in the same state, tests \<^verbatim>\<open>t.cy >= 0\<close> first and reads no item.
\<close>

theorem accept_before_repaint:
  "consume demo_env [reqList] demo_terminal = Running (constrain 24 demo_terminal)
   \<and> cy (constrain 24 demo_terminal) = - 1
   \<and> repopulated_terminal = UpdateList (demo_list 3) (constrain 24 demo_terminal)
   \<and> selected repopulated_terminal = [] \<and> length (merger repopulated_terminal) = 3
   \<and> cy repopulated_terminal = - 1
   \<and> Loop_switch demo_env actAccept no_event 0 (at_switch repopulated_terminal)
        = Some (req [reqClose] (at_switch repopulated_terminal))
   \<and> posted (req [reqClose] (at_switch repopulated_terminal)) = [reqPrompt, reqClose]
   \<and> output (Keys demo_env) repopulated_terminal = None
   \<and> consume demo_env [reqPrompt, reqClose] repopulated_terminal = Panicked
   \<and> consume demo_env [reqClose, reqPrompt] repopulated_terminal = Panicked
   \<and> consume demo_env [reqList, reqPrompt, reqClose] repopulated_terminal = Exited 0 [[97]]
   \<and> Loop_switch demo_env actExecute no_event 0 (at_switch repopulated_terminal)
        = Some (at_switch repopulated_terminal)"
proof -
  have m: "maxItems 24 (constrain 24 demo_terminal) = 22"
    by (simp add: maxItems_def constrain_def Let_def demo_terminal_fields)
  have c: "cy (constrain 24 demo_terminal) = - 1" "offset (constrain 24 demo_terminal) = 0"
    "merger (constrain 24 demo_terminal) = []" "cx (constrain 24 demo_terminal) = 0"
    "input (constrain 24 demo_terminal) = []"
    by (simp_all add: constrain_def Constrain_def maxItems_def Let_def demo_terminal_fields)
  have "printList demo_env demo_terminal = Some (constrain 24 demo_terminal)"
    by (simp add: printList_def Let_def demo_env_fields c len_def printList_rows_below)
  then have 1: "consume demo_env [reqList] demo_terminal = Running (constrain 24 demo_terminal)"
    by (simp add: placeCursor_def slice_def c)
  have 2: "Loop_switch demo_env actAccept no_event 0 (at_switch repopulated_terminal)
        = Some (req [reqClose] (at_switch repopulated_terminal))"
    by (simp add: Loop_switch_def)
  have 3: "posted (req [reqClose] (at_switch repopulated_terminal)) = [reqPrompt, reqClose]"
    by (simp add: posted_def req_def at_switch_def)
  have 4: "output (Keys demo_env) repopulated_terminal = None"
    by (simp add: output_def Get_def len_def Let_def repopulated_terminal_fields
        demo_list_length)
  have 5: "consume demo_env [reqPrompt, reqClose] repopulated_terminal = Panicked"
    "consume demo_env [reqClose, reqPrompt] repopulated_terminal = Panicked"
    by (simp_all add: 4 repopulated_terminal_fields)
  have 6: "Loop_switch demo_env actExecute no_event 0 (at_switch repopulated_terminal)
        = Some (at_switch repopulated_terminal)"
    by (simp add: Loop_switch_def at_switch_def repopulated_terminal_fields)
  have 7: "repopulated_terminal = UpdateList (demo_list 3) (constrain 24 demo_terminal)"
    by (simp add: repopulated_terminal_def)
  have 8: "selected repopulated_terminal = []" "length (merger repopulated_terminal) = 3"
    "cy repopulated_terminal = - 1"
    by (simp_all add: repopulated_terminal_fields demo_list_length)
  have f: "cy (constrain 24 repopulated_terminal) = 0"
    "merger (constrain 24 repopulated_terminal) = demo_list 3"
    "selected (constrain 24 repopulated_terminal) = []"
    "\<not> inlineInfo (constrain 24 repopulated_terminal)"
    "expect (constrain 24 repopulated_terminal) = []"
    "\<not> printQuery (constrain 24 repopulated_terminal)"
    by (simp_all add: constrain_def Constrain_def maxItems_def Let_def
        repopulated_terminal_fields demo_list_length)
  have "output (Keys demo_env) (constrain 24 repopulated_terminal) = Some [[97]]"
    by (simp add: output_def Get_def len_def Let_def f demo_list_def demo_item_def
        AsString_def upt_rec)
  then have 9: "consume demo_env [reqList, reqPrompt, reqClose] repopulated_terminal
      = Exited 0 [[97]]"
    by (simp add: printList_repopulated f)
  show ?thesis
    by (intro conjI 1 c(1) 2 3 4 5 6 7 8 9)
qed

subsection \<open>Selection and output\<close>




















subsection \<open>Rendering\<close>

lemma displayWidth_columns: "displayWidth rw runes = columns_from rw 0 runes"
  by (simp add: displayWidth_def columns_from_def)

lemma columns_from_simps [simp]:
  "columns_from rw a [] = a"
  "columns_from rw a (r # rs) = columns_from rw (a + runeWidth rw r a) rs"
  by (simp_all add: columns_from_def)

lemma columns_from_append:
  "columns_from rw a (xs @ ys) = columns_from rw (columns_from rw a xs) ys"
  by (simp add: columns_from_def)

lemma go_rem_8_bound: "go_rem p 8 \<le> 7"
proof -
  have "\<bar>p\<bar> mod 8 \<le> 7" "0 \<le> \<bar>p\<bar> mod 8"
    by simp_all
  then show ?thesis
    by (cases "p < 0"; cases "p = 0") (simp_all add: go_rem_def sgn_if)
qed

lemma runeWidth_nonneg: "\<forall>r. 0 \<le> rw r \<Longrightarrow> 0 \<le> runeWidth rw r p"
  using go_rem_8_bound [of p] by (simp add: runeWidth_def)

lemma columns_from_mono: "\<forall>r. 0 \<le> rw r \<Longrightarrow> a \<le> columns_from rw a xs"
proof (induction xs arbitrary: a)
  case Nil
  then show ?case by simp
next
  case (Cons r xs)
  from Cons.prems have "0 \<le> runeWidth rw r a"
    by (rule runeWidth_nonneg)
  moreover from Cons have "a + runeWidth rw r a \<le> columns_from rw (a + runeWidth rw r a) xs"
    by blast
  ultimately show ?case by simp
qed

lemma displayWidth_take_le:
  assumes "\<forall>r. 0 \<le> rw r"
  shows "displayWidth rw (take k xs) \<le> displayWidth rw xs"
proof -
  have "displayWidth rw xs = columns_from rw (displayWidth rw (take k xs)) (drop k xs)"
    using columns_from_append [of rw 0 "take k xs" "drop k xs"]
    by (simp add: displayWidth_columns)
  with columns_from_mono [OF assms] show ?thesis
    by simp
qed

lemma displayWidth_take_mono:
  assumes "\<forall>r. 0 \<le> rw r" and "j \<le> k"
  shows "displayWidth rw (take j xs) \<le> displayWidth rw (take k xs)"
proof -
  from assms(2) have "take j xs = take j (take k xs)"
    by (simp add: min_def)
  with displayWidth_take_le [OF assms(1), of j "take k xs"] show ?thesis
    by simp
qed

lemma displayWidth_dots:
  "rw 46 = 1 \<Longrightarrow> displayWidth rw (xs @ [46, 46]) = displayWidth rw xs + 2"
  by (simp add: displayWidth_columns columns_from_append runeWidth_def)

lemma displayWidth_after_dots:
  "rw 46 = 1 \<Longrightarrow> displayWidth rw ([46, 46] @ xs) = columns_from rw 2 xs"
  by (simp add: displayWidth_columns runeWidth_def)

lemma columns_from_narrow:
  "\<forall>r\<in>set xs. r \<noteq> 9 \<and> rw r \<le> 1 \<Longrightarrow> columns_from rw a xs \<le> a + int (length xs)"
proof (induction xs arbitrary: a)
  case Nil
  then show ?case by simp
next
  case (Cons r xs)
  then have "columns_from rw (a + runeWidth rw r a) xs \<le> a + runeWidth rw r a + int (length xs)"
    by simp
  moreover from Cons.prems have "runeWidth rw r a \<le> 1"
    by (simp add: runeWidth_def)
  ultimately show ?case by simp
qed

text \<open>\<^verbatim>\<open>displayWidthWithLimit\<close>: a result within the limit is the exact width.\<close>

lemma displayWidthWithLimit_loop_exact:
  "displayWidthWithLimit_loop rw p limit l rs \<le> limit \<Longrightarrow>
   columns_from rw (l + p) rs = displayWidthWithLimit_loop rw p limit l rs + p"
proof (induction rs arbitrary: l)
  case Nil
  then show ?case by simp
next
  case (Cons r rs)
  let ?l = "l + runeWidth rw r (l + p)"
  from Cons.prems have le: "\<not> ?l > limit"
    by (auto simp: Let_def split: if_splits)
  with Cons.prems have "displayWidthWithLimit_loop rw p limit ?l rs \<le> limit"
    by (simp add: Let_def)
  from Cons.IH [OF this] le show ?case
    by (simp add: Let_def algebra_simps)
qed

lemma displayWidthWithLimit_exact:
  "displayWidthWithLimit rw rs p limit \<le> limit \<Longrightarrow>
   columns_from rw p rs \<le> limit + p"
  using displayWidthWithLimit_loop_exact [of rw p limit 0 rs]
  by (simp add: displayWidthWithLimit_def)

text \<open>\<^verbatim>\<open>trimLeft\<close> drops leading runes and counts them.\<close>

lemma trimLeft_loop_drop:
  "\<exists>k\<le>length runes. trimLeft_loop rw width runes trimmed cw = (drop k runes, trimmed + int k)"
proof (induction runes arbitrary: trimmed cw)
  case Nil
  then show ?case by simp
next
  case (Cons r rs)
  show ?case
  proof (cases "cw > width")
    case True
    obtain k where "k \<le> length rs"
      "trimLeft_loop rw width rs (trimmed + 1) (displayWidthWithLimit rw rs 2 width)
        = (drop k rs, trimmed + 1 + int k)"
      using Cons.IH by blast
    with True show ?thesis
      by (intro exI [of _ "Suc k"]) simp
  next
    case False
    then show ?thesis
      by (intro exI [of _ 0]) simp
  qed
qed

lemma trimLeft_loop_width:
  "cw = displayWidthWithLimit rw runes 2 width \<Longrightarrow> 0 \<le> width \<Longrightarrow>
   columns_from rw 2 (fst (trimLeft_loop rw width runes trimmed cw)) \<le> width + 2"
proof (induction runes arbitrary: trimmed cw)
  case Nil
  then show ?case by simp
next
  case (Cons r rs)
  show ?case
  proof (cases "cw > width")
    case True
    with Cons.IH [OF refl Cons.prems(2)] show ?thesis by simp
  next
    case False
    with Cons.prems(1) have "displayWidthWithLimit rw (r # rs) 2 width \<le> width"
      by simp
    from displayWidthWithLimit_exact [OF this] False show ?thesis
      by simp
  qed
qed

lemma trimLeft_width:
  assumes "displayWidth rw runes > width" and "0 \<le> width"
  shows "columns_from rw 2 (fst (trimLeft rw runes width)) \<le> width + 2"
proof (cases runes)
  case Nil
  with assms(2) show ?thesis
    by (simp add: trimLeft_def)
next
  case (Cons r rs)
  with assms(1) have "trimLeft rw runes width
      = trimLeft_loop rw width rs 1 (displayWidthWithLimit rw rs 2 width)"
    by (simp add: trimLeft_def)
  with trimLeft_loop_width [OF refl assms(2), of rw rs 1] show ?thesis
    by simp
qed

lemma trimLeft_drop:
  "\<exists>k\<le>length runes. trimLeft rw runes width = (drop k runes, int k)"
  using trimLeft_loop_drop [of runes rw width 0 "displayWidth rw runes"]
  by (simp add: trimLeft_def)

lemma displayWidth_snoc: "displayWidth rw (pre @ [r]) = displayWidth rw pre + runeWidth rw r (displayWidth rw pre)"
  by (simp add: displayWidth_columns columns_from_append)

lemma trimRight_loop_width:
  assumes "runes = pre @ rest" and "idx = length pre" and "l = displayWidth rw pre"
    and "pre \<noteq> [] \<longrightarrow> l \<le> width"
    and "pre = [] \<longrightarrow> rest \<noteq> [] \<and> runeWidth rw (hd rest) 0 \<le> width"
    and "displayWidth rw runes > width"
  shows "displayWidth rw (fst (trimRight_loop rw runes width idx l rest)) \<le> width"
  using assms
proof (induction rest arbitrary: pre idx l)
  case Nil
  then show ?case by (cases "pre = []") simp_all
next
  case (Cons r rs)
  let ?l = "l + runeWidth rw r l"
  show ?case
  proof (cases "idx > 0 \<and> ?l > width")
    case True
    with Cons.prems(1,2,3,4) show ?thesis
      by (auto simp: Let_def)
  next
    case False
    have 1: "runes = (pre @ [r]) @ rs" and 2: "Suc idx = length (pre @ [r])"
      using Cons.prems(1,2) by simp_all
    have 3: "?l = displayWidth rw (pre @ [r])"
      using Cons.prems(3) by (simp add: displayWidth_snoc)
    have 4: "pre @ [r] \<noteq> [] \<longrightarrow> ?l \<le> width"
    proof (cases "pre = []")
      case True
      with Cons.prems(3,5) show ?thesis
        by (simp add: displayWidth_def)
    next
      case False
      with \<open>\<not> (idx > 0 \<and> ?l > width)\<close> Cons.prems(2) show ?thesis
        by simp
    qed
    have 5: "pre @ [r] = [] \<longrightarrow> rs \<noteq> [] \<and> runeWidth rw (hd rs) 0 \<le> width"
      by simp
    from Cons.IH [OF 1 2 3 4 5 Cons.prems(6)] False show ?thesis
      by (auto simp: Let_def)
  qed
qed

lemma trimRight_width:
  assumes "runes \<noteq> []" and "runeWidth rw (hd runes) 0 \<le> width"
    and "displayWidth rw runes > width"
  shows "displayWidth rw (fst (trimRight rw runes width)) \<le> width"
  unfolding trimRight_def
  by (rule trimRight_loop_width [where pre = "[]"]) (use assms in \<open>simp_all add: displayWidth_def\<close>)

lemma trimRight_loop_keeps:
  assumes "runes = pre @ rest" and "idx = length pre" and "l = displayWidth rw pre"
    and "\<forall>r. 0 \<le> rw r" and "displayWidth rw (take m runes) \<le> width" and "m \<le> length runes"
  shows "m \<le> length (fst (trimRight_loop rw runes width idx l rest))"
  using assms(1,2,3)
proof (induction rest arbitrary: pre idx l)
  case Nil
  with assms(6) show ?case by simp
next
  case (Cons r rs)
  let ?l = "l + runeWidth rw r l"
  have l: "?l = displayWidth rw (take (Suc idx) runes)"
    using Cons.prems by (simp add: displayWidth_snoc)
  show ?case
  proof (cases "idx > 0 \<and> ?l > width")
    case True
    have "m \<le> idx"
    proof (rule ccontr)
      assume "\<not> m \<le> idx"
      then have "Suc idx \<le> m" by simp
      from displayWidth_take_mono [OF assms(4) this, of runes] l assms(5) True show False
        by simp
    qed
    with True Cons.prems(1,2) show ?thesis
      by (simp add: Let_def)
  next
    case False
    have 1: "runes = (pre @ [r]) @ rs" and 2: "Suc idx = length (pre @ [r])"
      using Cons.prems(1,2) by simp_all
    have 3: "?l = displayWidth rw (pre @ [r])"
      using Cons.prems(3) by (simp add: displayWidth_snoc)
    from Cons.IH [OF 1 2 3] False show ?thesis
      by (auto simp: Let_def)
  qed
qed

lemma trimRight_keeps:
  assumes "\<forall>r. 0 \<le> rw r" and "displayWidth rw (take m runes) \<le> width" and "m \<le> length runes"
  shows "m \<le> length (fst (trimRight rw runes width))"
  unfolding trimRight_def
  by (rule trimRight_loop_keeps [where pre = "[]"]) (use assms in \<open>simp_all add: displayWidth_def\<close>)

lemma trimRight_loop_narrow:
  assumes "runes = pre @ rest" and "idx = length pre" and "l = displayWidth rw pre"
    and "\<forall>r\<in>set runes. r \<noteq> 9 \<and> rw r \<le> 1"
  shows "min (int (length runes)) width \<le> int (length (fst (trimRight_loop rw runes width idx l rest)))"
  using assms(1,2,3)
proof (induction rest arbitrary: pre idx l)
  case Nil
  then show ?case by simp
next
  case (Cons r rs)
  let ?l = "l + runeWidth rw r l"
  have 3: "?l = displayWidth rw (pre @ [r])"
    using Cons.prems(3) by (simp add: displayWidth_snoc)
  show ?case
  proof (cases "idx > 0 \<and> ?l > width")
    case True
    have "\<forall>x\<in>set (pre @ [r]). x \<noteq> 9 \<and> rw x \<le> 1"
      using assms(4) Cons.prems(1) by simp
    from columns_from_narrow [OF this, of 0] 3 Cons.prems(2)
    have "?l \<le> int idx + 1"
      by (simp add: displayWidth_columns)
    with True have "width \<le> int idx"
      by simp
    with True Cons.prems(1,2) show ?thesis
      by (simp add: Let_def)
  next
    case False
    have 1: "runes = (pre @ [r]) @ rs" and 2: "Suc idx = length (pre @ [r])"
      using Cons.prems(1,2) by simp_all
    from Cons.IH [OF 1 2 3] False show ?thesis
      by (auto simp: Let_def)
  qed
qed

lemma trimRight_narrow:
  assumes "\<forall>r\<in>set runes. r \<noteq> 9 \<and> rw r \<le> 1"
  shows "min (int (length runes)) width \<le> int (length (fst (trimRight rw runes width)))"
  unfolding trimRight_def
  by (rule trimRight_loop_narrow [where pre = "[]"]) (use assms in \<open>simp_all add: displayWidth_def\<close>)

text \<open>The loop that computes \<^verbatim>\<open>maxe\<close>.\<close>

lemma maxe_ge:
  "a \<le> foldl (\<lambda>maxe off. if snd off > maxe then snd off else maxe) a (offs :: (int \<times> int) list)"
proof (induction offs arbitrary: a)
  case Nil
  then show ?case by simp
next
  case (Cons x xs)
  have "a \<le> (if snd x > a then snd x else a)"
    by simp
  also have "\<dots> \<le> foldl (\<lambda>maxe off. if snd off > maxe then snd off else maxe)
      (if snd x > a then snd x else a) xs"
    by (rule Cons.IH)
  finally show ?case by simp
qed

lemma maxe_upper:
  "off \<in> set offs \<Longrightarrow>
   snd off \<le> foldl (\<lambda>maxe off. if snd off > maxe then snd off else maxe) a (offs :: (int \<times> int) list)"
proof (induction offs arbitrary: a)
  case Nil
  then show ?case by simp
next
  case (Cons x xs)
  show ?case
  proof (cases "off = x")
    case True
    have "snd x \<le> (if snd x > a then snd x else a)" by simp
    also have "\<dots> \<le> foldl (\<lambda>maxe off. if snd off > maxe then snd off else maxe) (if snd x > a then snd x else a) xs"
      by (rule maxe_ge)
    finally show ?thesis using True by simp
  next
    case False
    with Cons show ?thesis by simp
  qed
qed

lemma maxe_le:
  "a \<le> n \<Longrightarrow> \<forall>off\<in>set offs. snd off \<le> n \<Longrightarrow>
   foldl (\<lambda>maxe off. if snd off > maxe then snd off else maxe) a (offs :: (int \<times> int) list) \<le> n"
  by (induction offs arbitrary: a) auto

lemma painted_simps [simp]:
  "painted [] = []" "painted (out @ [(c, b, s)]) = painted out @ s"
  by (simp_all add: painted_def)

lemma processTabs_loop_append:
  "processTabs_loop rw buf l (xs @ ys) =
     processTabs_loop rw (fst (processTabs_loop rw buf l xs)) (snd (processTabs_loop rw buf l xs)) ys"
  by (induction xs arbitrary: buf l) (simp_all add: Let_def)

lemma processTabs_loop_buf:
  "processTabs_loop rw buf l rs =
     (buf @ fst (processTabs_loop rw [] l rs), snd (processTabs_loop rw [] l rs))"
proof (induction rs arbitrary: buf l)
  case Nil
  then show ?case by simp
next
  case (Cons r rs)
  let ?l = "l + runeWidth rw r l"
  let ?s = "if r = 9 then replicate (nat (runeWidth rw r l)) 32 else [r]"
  have "processTabs_loop rw buf l (r # rs) = processTabs_loop rw (buf @ ?s) ?l rs"
    by (simp add: Let_def)
  also have "\<dots> = ((buf @ ?s) @ fst (processTabs_loop rw [] ?l rs), snd (processTabs_loop rw [] ?l rs))"
    by (rule Cons.IH)
  finally have a: "processTabs_loop rw buf l (r # rs)
      = (buf @ ?s @ fst (processTabs_loop rw [] ?l rs), snd (processTabs_loop rw [] ?l rs))"
    by simp
  have "processTabs_loop rw [] l (r # rs) = processTabs_loop rw ([] @ ?s) ?l rs"
    by (simp add: Let_def)
  also have "\<dots> = (([] @ ?s) @ fst (processTabs_loop rw [] ?l rs), snd (processTabs_loop rw [] ?l rs))"
    by (rule Cons.IH)
  finally have b: "processTabs_loop rw [] l (r # rs)
      = (?s @ fst (processTabs_loop rw [] ?l rs), snd (processTabs_loop rw [] ?l rs))"
    by simp
  from a b show ?case by simp
qed

lemma processTabs_append:
  "processTabs rw (xs @ ys) p =
     (fst (processTabs rw xs p) @ fst (processTabs rw ys (snd (processTabs rw xs p))),
      snd (processTabs rw ys (snd (processTabs rw xs p))))"
  unfolding processTabs_def processTabs_loop_append
  by (subst processTabs_loop_buf) simp

lemma slice_Some:
  "0 \<le> i \<Longrightarrow> i \<le> j \<Longrightarrow> j \<le> len xs \<Longrightarrow>
   slice xs i j = Some (take (nat (j - i)) (drop (nat i) xs))"
  by (simp add: slice_def len_def)

lemma take_split:
  assumes "0 \<le> i" and "i \<le> j"
  shows "take (nat j) xs = take (nat i) xs @ take (nat (j - i)) (drop (nat i) xs)"
proof -
  from assms have "nat j = nat i + nat (j - i)"
    by simp
  then show ?thesis
    by (simp only: take_add)
qed

lemma processTabs_slice:
  assumes "0 \<le> i" and "i \<le> j" and "j \<le> len xs"
    and "processTabs rw (take (nat i) xs) 0 = (s, pw)"
  shows "processTabs rw (take (nat j) xs) 0 =
     (s @ fst (processTabs rw (take (nat (j - i)) (drop (nat i) xs)) pw),
      snd (processTabs rw (take (nat (j - i)) (drop (nat i) xs)) pw))"
  using assms(4) by (simp add: take_split [OF assms(1,2)] processTabs_append)

lemma paint_loop_inv:
  assumes "\<forall>off\<in>set offsets. fst (co_offset off) \<le> snd (co_offset off)"
    and "0 \<le> index" and "index \<le> len text"
    and "processTabs rw (take (nat index) text) 0 = (painted out, pw)"
  shows "\<exists>index' pw' out'.
      paint_loop rw text col1 bold (index, pw, out) offsets = Some (index', pw', out')
      \<and> 0 \<le> index' \<and> index' \<le> len text
      \<and> processTabs rw (take (nat index') text) 0 = (painted out', pw')"
  using assms
proof (induction offsets arbitrary: index pw out)
  case Nil
  then show ?case by simp
next
  case (Cons off offsets)
  define b where "b = Constrain32 (fst (co_offset off)) index (len text)"
  define e where "e = Constrain32 (snd (co_offset off)) index (len text)"
  from Cons.prems have be: "index \<le> b" "b \<le> e" "e \<le> len text"
    by (auto simp: b_def e_def Constrain32_def Constrain_def)
  define gap where "gap = take (nat (b - index)) (drop (nat index) text)"
  define span where "span = take (nat (e - b)) (drop (nat b) text)"
  define s1 where "s1 = fst (processTabs rw gap pw)"
  define pw1 where "pw1 = snd (processTabs rw gap pw)"
  define out1 where "out1 = out @ [(col1, bold, s1)]"
  define pw2 where "pw2 = (if b < e then snd (processTabs rw span pw1) else pw1)"
  define out2 where "out2 = (if b < e then out1 @ [(co_color off, co_bold off, fst (processTabs rw span pw1))] else out1)"
  have g: "slice text index b = Some gap"
    using slice_Some [of index b "text"] Cons.prems(2) be by (simp add: gap_def)
  have sp: "slice text b e = Some span"
    using slice_Some [of b e "text"] Cons.prems(2) be by (simp add: span_def)
  have step: "paint_loop rw text col1 bold (index, pw, out) (off # offsets) =
      (if e \<ge> len text then Some (e, pw2, out2)
       else paint_loop rw text col1 bold (e, pw2, out2) offsets)"
    by (simp add: Let_def g sp b_def [symmetric] e_def [symmetric] s1_def pw1_def out1_def
        pw2_def out2_def split: prod.splits)
  have i1: "processTabs rw (take (nat b) text) 0 = (painted out1, pw1)"
    using processTabs_slice [OF Cons.prems(2) be(1) _ Cons.prems(4)] be
    by (simp add: gap_def s1_def pw1_def out1_def)
  have i2: "processTabs rw (take (nat e) text) 0 = (painted out2, pw2)"
  proof (cases "b < e")
    case True
    have "0 \<le> b" using Cons.prems(2) be by simp
    from processTabs_slice [OF this be(2,3) i1] True show ?thesis
      by (simp add: span_def out2_def pw2_def)
  next
    case False
    with be have "b = e" by simp
    with i1 False show ?thesis
      by (simp add: out2_def pw2_def)
  qed
  have e0: "0 \<le> e"
    using Cons.prems(2) be by simp
  show ?case
  proof (cases "e \<ge> len text")
    case True
    with step i2 e0 be show ?thesis by simp
  next
    case False
    from Cons.prems(1) have "\<forall>off\<in>set offsets. fst (co_offset off) \<le> snd (co_offset off)"
      by simp
    from Cons.IH [OF this e0 be(3) i2] step False show ?thesis
      by simp
  qed
qed

lemma printHighlighted_paint_whole:
  assumes "\<forall>off\<in>set offsets. fst (co_offset off) \<le> snd (co_offset off)"
  shows "\<exists>prints. printHighlighted_paint rw text offsets col1 bold = Some prints
     \<and> painted prints = fst (processTabs rw text 0)"
proof -
  have "processTabs rw (take (nat 0) text) 0 = (painted [], 0)"
    by (simp add: processTabs_def)
  from paint_loop_inv [OF assms _ _ this, of col1 bold]
  obtain index pw out where l: "paint_loop rw text col1 bold (0, 0, []) offsets = Some (index, pw, out)"
    "0 \<le> index" "index \<le> len text"
    "processTabs rw (take (nat index) text) 0 = (painted out, pw)"
    by (auto simp: len_def)
  show ?thesis
  proof (cases "index < len text")
    case True
    have sl: "slice text index (len text) = Some (drop (nat index) text)"
      using l(2,3) by (simp add: slice_def len_def)
    have "processTabs rw (take (nat index) text @ drop (nat index) text) 0 =
      (painted out @ fst (processTabs rw (drop (nat index) text) pw),
       snd (processTabs rw (drop (nat index) text) pw))"
      by (simp only: processTabs_append l(4) fst_conv snd_conv)
    then have "fst (processTabs rw text 0) = painted out @ fst (processTabs rw (drop (nat index) text) pw)"
      by simp
    with True l(1) sl show ?thesis
      by (simp add: printHighlighted_paint_def)
  next
    case False
    with l(3) have "index = len text" by simp
    with l(1,4) False show ?thesis
      by (simp add: printHighlighted_paint_def len_def)
  qed
qed

lemma match_end_bounds:
  assumes "wf_offsets item"
  shows "0 \<le> match_end item" and "match_end item \<le> len (item_text item)"
    and "\<forall>off\<in>set (item_offsets item). snd off \<le> match_end item"
proof -
  show "0 \<le> match_end item"
    unfolding match_end_def by (rule maxe_ge)
  show "match_end item \<le> len (item_text item)"
    unfolding match_end_def using assms by (intro maxe_le) (auto simp: wf_offsets_def len_def)
  show "\<forall>off\<in>set (item_offsets item). snd off \<le> match_end item"
    unfolding match_end_def using maxe_upper by blast
qed

lemma colorOffsets_set:
  "c \<in> set (colorOffsets item col2 bold current) \<Longrightarrow> co_offset c \<in> set (item_offsets item)"
  by (auto simp: colorOffsets_def)

text \<open>The outcomes of the first half of \<^verbatim>\<open>printHighlighted\<close>.\<close>

lemma trim_fits:
  "displayWidth rw (item_text item) \<le> maxx - 3 \<Longrightarrow>
   printHighlighted_trim rw maxx t item bold col2 current
     = Some (item_text item, colorOffsets item col2 bold current)"
  by (simp add: printHighlighted_trim_def Let_def)

lemma trim_right_noscroll:
  "displayWidth rw (item_text item) > maxx - 3 \<Longrightarrow> \<not> hscroll t \<Longrightarrow>
   printHighlighted_trim rw maxx t item bold col2 current
     = Some (fst (trimRight rw (item_text item) (maxx - 3 - 2)) @ [46, 46],
             map (\<lambda>off. off\<lparr>co_offset := (Min32 (fst (co_offset off)) (maxx - 3 - 2),
                                            Min32 (snd (co_offset off)) (maxx - 3))\<rparr>)
               (colorOffsets item col2 bold current))"
  by (simp add: printHighlighted_trim_def Let_def)

lemma trim_right_scroll:
  assumes "displayWidth rw (item_text item) > maxx - 3" and "hscroll t" and "wf_offsets item"
    and "\<not> trims_left rw maxx t item"
  shows "printHighlighted_trim rw maxx t item bold col2 current
     = Some (fst (trimRight rw (item_text item) (maxx - 3 - 2)) @ [46, 46],
             colorOffsets item col2 bold current)"
proof -
  have s: "slice (item_text item) 0 (match_end item) = Some (take (nat (match_end item)) (item_text item))"
    using match_end_bounds [OF assms(3)] by (simp add: slice_def len_def)
  from assms(2,4) have "displayWidth rw (take (nat (match_end item)) (item_text item)) \<le> maxx - 3 - 2"
    by (simp add: trims_left_def)
  with assms(1,2) s show ?thesis
    by (simp add: printHighlighted_trim_def Let_def match_end_def [symmetric])
qed

lemma trim_left:
  assumes "displayWidth rw (item_text item) > maxx - 3" and "wf_offsets item"
    and "trims_left rw maxx t item"
  defines "front \<equiv> take (nat (match_end item)) (item_text item)"
  defines "kept \<equiv> (if displayWidth rw front < displayWidth rw (item_text item) - 2
                   then front @ [46, 46] else item_text item)"
  shows "printHighlighted_trim rw maxx t item bold col2 current
     = Some ([46, 46] @ fst (trimLeft rw kept (maxx - 3 - 2)),
             map (\<lambda>off. off\<lparr>co_offset :=
                    (Max32 (fst (co_offset off) + (2 - snd (trimLeft rw kept (maxx - 3 - 2)))) 2,
                     Max32 (Max32 (fst (co_offset off) + (2 - snd (trimLeft rw kept (maxx - 3 - 2)))) 2)
                           (snd (co_offset off) + (2 - snd (trimLeft rw kept (maxx - 3 - 2)))))\<rparr>)
               (colorOffsets item col2 bold current))"
proof -
  have s: "slice (item_text item) 0 (match_end item) = Some front"
    using match_end_bounds [OF assms(2)] by (simp add: slice_def len_def front_def)
  from assms(3) have h: "hscroll t" and w: "\<not> displayWidth rw front \<le> maxx - 3 - 2"
    by (simp_all add: trims_left_def front_def)
  from assms(1) h w s show ?thesis
    by (simp add: printHighlighted_trim_def Let_def match_end_def [symmetric] kept_def
        split: prod.splits)
qed

lemma displayWidth_Nil: "displayWidth rw [] = 0"
  by (simp add: displayWidth_def)

lemma wf_colorOffsets:
  assumes "wf_offsets item" and "c \<in> set (colorOffsets item col2 bold current)"
  shows "0 \<le> fst (co_offset c)" and "fst (co_offset c) \<le> snd (co_offset c)"
    and "snd (co_offset c) \<le> match_end item" and "snd (co_offset c) \<le> len (item_text item)"
proof -
  from colorOffsets_set [OF assms(2)] have m: "co_offset c \<in> set (item_offsets item)" .
  with assms(1) show "0 \<le> fst (co_offset c)" "fst (co_offset c) \<le> snd (co_offset c)"
    "snd (co_offset c) \<le> len (item_text item)"
    by (auto simp: wf_offsets_def)
  from m match_end_bounds(3) [OF assms(1)] show "snd (co_offset c) \<le> match_end item"
    by blast
qed

lemma trimmed_right_width:
  assumes "\<forall>r. 0 \<le> rw r" and "rw 46 = 1"
    and "displayWidth rw runes > mw" and "2 \<le> mw" and "runeWidth rw (hd runes) 0 \<le> mw - 2"
  shows "displayWidth rw (fst (trimRight rw runes (mw - 2)) @ [46, 46]) \<le> mw"
proof -
  from assms(3,4) have "runes \<noteq> []"
    by (auto simp: displayWidth_Nil)
  moreover from assms(3) have "displayWidth rw runes > mw - 2"
    by simp
  ultimately have "displayWidth rw (fst (trimRight rw runes (mw - 2))) \<le> mw - 2"
    using assms(5) by (intro trimRight_width)
  with assms(2) show ?thesis
    by (simp add: displayWidth_dots)
qed

text \<open>Trimmed from the right, horizontal scrolling off.\<close>

lemma noscroll_offsets:
  assumes "wf_offsets item"
    and "c \<in> set (map (\<lambda>off. off\<lparr>co_offset := (Min32 (fst (co_offset off)) (mw - 2),
                                            Min32 (snd (co_offset off)) mw)\<rparr>)
               (colorOffsets item col2 bold current))"
  shows "fst (co_offset c) \<le> snd (co_offset c)"
    and "2 \<le> mw \<longrightarrow> 0 \<le> fst (co_offset c)"
    and "snd (co_offset c) \<le> mw"
    and "narrow rw (item_text item) \<longrightarrow>
         snd (co_offset c) \<le> len (fst (trimRight rw (item_text item) (mw - 2)) @ [46, 46])"
proof -
  from assms(2) obtain c0 where c0: "c0 \<in> set (colorOffsets item col2 bold current)"
    and c: "co_offset c = (Min32 (fst (co_offset c0)) (mw - 2), Min32 (snd (co_offset c0)) mw)"
    by auto
  note w = wf_colorOffsets [OF assms(1) c0]
  from c w show "fst (co_offset c) \<le> snd (co_offset c)"
    by (simp add: Min32_def)
  from c w show "2 \<le> mw \<longrightarrow> 0 \<le> fst (co_offset c)"
    by (simp add: Min32_def)
  from c show "snd (co_offset c) \<le> mw"
    by (simp add: Min32_def)
  show "narrow rw (item_text item) \<longrightarrow>
         snd (co_offset c) \<le> len (fst (trimRight rw (item_text item) (mw - 2)) @ [46, 46])"
  proof
    assume "narrow rw (item_text item)"
    then have "min (int (length (item_text item))) (mw - 2)
        \<le> int (length (fst (trimRight rw (item_text item) (mw - 2))))"
      unfolding narrow_def by (rule trimRight_narrow)
    with c w(4) show "snd (co_offset c) \<le> len (fst (trimRight rw (item_text item) (mw - 2)) @ [46, 46])"
      by (simp add: Min32_def len_def min_def split: if_splits)
  qed
qed

text \<open>Trimmed from the right, horizontal scrolling on.\<close>

lemma scroll_right_offsets:
  assumes "\<forall>r. 0 \<le> rw r" and "wf_offsets item" and "hscroll t" and "\<not> trims_left rw maxx t item"
    and "c \<in> set (colorOffsets item col2 bold current)"
  shows "snd (co_offset c) \<le> len (fst (trimRight rw (item_text item) (maxx - 3 - 2)) @ [46, 46])"
proof -
  note b = match_end_bounds [OF assms(2)]
  from assms(3,4) have "displayWidth rw (take (nat (match_end item)) (item_text item)) \<le> maxx - 3 - 2"
    by (simp add: trims_left_def)
  moreover from b have "nat (match_end item) \<le> length (item_text item)"
    by (simp add: len_def)
  ultimately have "nat (match_end item) \<le> length (fst (trimRight rw (item_text item) (maxx - 3 - 2)))"
    using assms(1) by (intro trimRight_keeps)
  with wf_colorOffsets(3) [OF assms(2,5)] show ?thesis
    by (simp add: len_def)
qed

text \<open>Trimmed from the left.\<close>

lemma left_kept_width:
  assumes "\<forall>r. 0 \<le> rw r" and "rw 46 = 1" and "displayWidth rw runes > mw"
    and "displayWidth rw (take m runes) > mw - 2"
  shows "displayWidth rw (if displayWidth rw (take m runes) < displayWidth rw runes - 2
                          then take m runes @ [46, 46] else runes) > mw - 2"
  using assms by (simp add: displayWidth_dots)

lemma left_width:
  assumes "\<forall>r. 0 \<le> rw r" and "rw 46 = 1" and "displayWidth rw kept > mw - 2" and "2 \<le> mw"
  shows "displayWidth rw ([46, 46] @ fst (trimLeft rw kept (mw - 2))) \<le> mw"
proof -
  from assms(3,4) have "columns_from rw 2 (fst (trimLeft rw kept (mw - 2))) \<le> mw - 2 + 2"
    by (intro trimLeft_width) simp_all
  with assms(2) show ?thesis
    by (simp only: displayWidth_after_dots)
qed

lemma left_offsets:
  assumes "0 \<le> b" and "b \<le> e" and "e \<le> int (length kept)"
  shows "Max32 (b + (2 - snd (trimLeft rw kept w))) 2
           \<le> Max32 (Max32 (b + (2 - snd (trimLeft rw kept w))) 2) (e + (2 - snd (trimLeft rw kept w)))"
    and "0 \<le> Max32 (b + (2 - snd (trimLeft rw kept w))) 2"
    and "Max32 (Max32 (b + (2 - snd (trimLeft rw kept w))) 2) (e + (2 - snd (trimLeft rw kept w)))
           \<le> len ([46, 46] @ fst (trimLeft rw kept w))"
proof -
  obtain k where k: "k \<le> length kept" "trimLeft rw kept w = (drop k kept, int k)"
    using trimLeft_drop by blast
  show "Max32 (b + (2 - snd (trimLeft rw kept w))) 2
           \<le> Max32 (Max32 (b + (2 - snd (trimLeft rw kept w))) 2) (e + (2 - snd (trimLeft rw kept w)))"
    by (simp add: Max32_def)
  show "0 \<le> Max32 (b + (2 - snd (trimLeft rw kept w))) 2"
    by (simp add: Max32_def)
  from k assms show "Max32 (Max32 (b + (2 - snd (trimLeft rw kept w))) 2) (e + (2 - snd (trimLeft rw kept w)))
           \<le> len ([46, 46] @ fst (trimLeft rw kept w))"
    by (simp add: Max32_def len_def)
qed

lemma printHighlighted_whole:
  assumes "printHighlighted_trim rw maxx t item bold col2 current = Some (txt, offs)"
    and "\<forall>off\<in>set offs. fst (co_offset off) \<le> snd (co_offset off)"
  shows "\<exists>prints. printHighlighted rw maxx t item bold col1 col2 current = Some prints
     \<and> painted prints = fst (processTabs rw txt 0)"
  using printHighlighted_paint_whole [OF assms(2), of rw "txt" col1 bold] assms(1)
  by (simp add: printHighlighted_def)

lemma in_map_update:
  "c \<in> set (map (\<lambda>off. off\<lparr>co_offset := g off\<rparr>) xs) \<Longrightarrow> \<exists>c0\<in>set xs. co_offset c = g c0"
  by auto

text \<open>
  C1, amended: for rune widths that are not negative (1 for the full stop) and match
  offsets inside the text, \<^verbatim>\<open>printHighlighted\<close> does not fail and paints, piece by
  piece, exactly the text \<open>txt\<close> that it has truncated, tabs expanded. If the full width
  is at most \<open>maxWidth = maxx - 3\<close>, the text and the offsets are the item's own: nothing
  is truncated. If the full width exceeds \<open>maxWidth\<close> and \<open>maxWidth \<ge> 2\<close>:
  the truncated text, with its \<^verbatim>\<open>..\<close> markers, is at most \<open>maxWidth\<close> columns wide
  provided that it is trimmed from the left (horizontal scrolling, the furthest match end
  beyond column \<open>maxWidth - 2\<close>) or that its first rune is at most \<open>maxWidth - 2\<close>
  columns wide;
  every adjusted offset satisfies \<open>0 \<le> start \<le> end\<close>;
  every adjusted offset ends within the truncated text when horizontal scrolling is on,
  or when no rune of the text is a tab or wider than one column;
  without horizontal scrolling every adjusted offset ends at or before \<open>maxWidth\<close>.
\<close>

theorem truncated_text:
  assumes "\<forall>r. 0 \<le> rw r" and "rw 46 = 1" and "wf_offsets item"
  shows "\<exists>txt offs prints.
      printHighlighted_trim rw maxx t item bold col2 current = Some (txt, offs)
    \<and> printHighlighted rw maxx t item bold col1 col2 current = Some prints
    \<and> painted prints = fst (processTabs rw txt 0)
    \<and> (displayWidth rw (item_text item) \<le> maxx - 3 \<longrightarrow>
         txt = item_text item \<and> offs = colorOffsets item col2 bold current)
    \<and> (displayWidth rw (item_text item) > maxx - 3 \<and> 2 \<le> maxx - 3 \<longrightarrow>
         (trims_left rw maxx t item \<or> runeWidth rw (hd (item_text item)) 0 \<le> maxx - 3 - 2 \<longrightarrow>
            displayWidth rw txt \<le> maxx - 3)
       \<and> (\<forall>off\<in>set offs. 0 \<le> fst (co_offset off) \<and> fst (co_offset off) \<le> snd (co_offset off))
       \<and> (hscroll t \<or> narrow rw (item_text item) \<longrightarrow>
            (\<forall>off\<in>set offs. snd (co_offset off) \<le> len txt))
       \<and> (\<not> hscroll t \<longrightarrow> (\<forall>off\<in>set offs. snd (co_offset off) \<le> maxx - 3)))"
proof -
  let ?text = "item_text item"
  let ?given = "colorOffsets item col2 bold current"
  let ?mw = "maxx - 3"
  consider (fits) "displayWidth rw ?text \<le> ?mw"
    | (noscroll) "displayWidth rw ?text > ?mw" "\<not> hscroll t"
    | (right) "displayWidth rw ?text > ?mw" "hscroll t" "\<not> trims_left rw maxx t item"
    | (left) "displayWidth rw ?text > ?mw" "trims_left rw maxx t item"
    by fastforce
  then show ?thesis
  proof cases
    case fits
    have tr: "printHighlighted_trim rw maxx t item bold col2 current = Some (?text, ?given)"
      using fits by (rule trim_fits)
    have le: "\<forall>off\<in>set ?given. fst (co_offset off) \<le> snd (co_offset off)"
      using wf_colorOffsets(2) [OF assms(3)] by blast
    from printHighlighted_whole [OF tr le] obtain prints where
      "printHighlighted rw maxx t item bold col1 col2 current = Some prints"
      "painted prints = fst (processTabs rw ?text 0)"
      by blast
    with tr fits show ?thesis
      by (intro exI [of _ ?text] exI [of _ ?given] exI [of _ prints]) simp
  next
    case noscroll
    then have nf: "\<not> displayWidth rw ?text \<le> ?mw"
      by simp
    let ?txt = "fst (trimRight rw ?text (?mw - 2)) @ [46, 46]"
    let ?offs = "map (\<lambda>off. off\<lparr>co_offset := (Min32 (fst (co_offset off)) (?mw - 2),
                                            Min32 (snd (co_offset off)) ?mw)\<rparr>) ?given"
    have tr: "printHighlighted_trim rw maxx t item bold col2 current = Some (?txt, ?offs)"
      using noscroll by (rule trim_right_noscroll)
    note o = noscroll_offsets [OF assms(3), where mw = ?mw]
    have le: "\<forall>off\<in>set ?offs. fst (co_offset off) \<le> snd (co_offset off)"
      using o(1) by blast
    from printHighlighted_whole [OF tr le] obtain prints where p:
      "printHighlighted rw maxx t item bold col1 col2 current = Some prints"
      "painted prints = fst (processTabs rw ?txt 0)"
      by blast
    have w: "2 \<le> ?mw \<Longrightarrow> runeWidth rw (hd ?text) 0 \<le> ?mw - 2 \<Longrightarrow> displayWidth rw ?txt \<le> ?mw"
      using trimmed_right_width [OF assms(1,2) noscroll(1)] by blast
    have nl: "\<not> trims_left rw maxx t item"
      using noscroll(2) by (simp add: trims_left_def)
    have o1: "2 \<le> ?mw \<Longrightarrow> \<forall>off\<in>set ?offs. 0 \<le> fst (co_offset off) \<and> fst (co_offset off) \<le> snd (co_offset off)"
      using o(1,2) by blast
    have o2: "narrow rw ?text \<Longrightarrow> \<forall>off\<in>set ?offs. snd (co_offset off) \<le> len ?txt"
      using o(4) by blast
    have o3: "\<forall>off\<in>set ?offs. snd (co_offset off) \<le> ?mw"
      using o(3) by blast
    from tr p noscroll nf w nl o1 o2 o3 show ?thesis
      by (intro exI [of _ ?txt] exI [of _ ?offs] exI [of _ prints]) blast
  next
    case right
    then have nf: "\<not> displayWidth rw ?text \<le> ?mw"
      by simp
    let ?txt = "fst (trimRight rw ?text (?mw - 2)) @ [46, 46]"
    have tr: "printHighlighted_trim rw maxx t item bold col2 current = Some (?txt, ?given)"
      using right(1,2) assms(3) right(3) by (rule trim_right_scroll)
    have le: "\<forall>off\<in>set ?given. fst (co_offset off) \<le> snd (co_offset off)"
      using wf_colorOffsets(2) [OF assms(3)] by blast
    from printHighlighted_whole [OF tr le] obtain prints where p:
      "printHighlighted rw maxx t item bold col1 col2 current = Some prints"
      "painted prints = fst (processTabs rw ?txt 0)"
      by blast
    have w: "2 \<le> ?mw \<Longrightarrow> runeWidth rw (hd ?text) 0 \<le> ?mw - 2 \<Longrightarrow> displayWidth rw ?txt \<le> ?mw"
      using trimmed_right_width [OF assms(1,2) right(1)] by blast
    have o1: "\<forall>off\<in>set ?given. 0 \<le> fst (co_offset off) \<and> fst (co_offset off) \<le> snd (co_offset off)"
      using wf_colorOffsets(1,2) [OF assms(3)] by blast
    have o2: "\<forall>off\<in>set ?given. snd (co_offset off) \<le> len ?txt"
      using scroll_right_offsets [OF assms(1,3) right(2,3)] by blast
    from tr p right nf w o1 o2 show ?thesis
      by (intro exI [of _ ?txt] exI [of _ ?given] exI [of _ prints]) blast
  next
    case left
    then have nf: "\<not> displayWidth rw ?text \<le> ?mw"
      by simp
    define front where "front = take (nat (match_end item)) ?text"
    define kept where "kept = (if displayWidth rw front < displayWidth rw ?text - 2
                               then front @ [46, 46] else ?text)"
    let ?d = "snd (trimLeft rw kept (?mw - 2))"
    let ?txt = "[46, 46] @ fst (trimLeft rw kept (?mw - 2))"
    let ?offs = "map (\<lambda>off. off\<lparr>co_offset :=
                    (Max32 (fst (co_offset off) + (2 - ?d)) 2,
                     Max32 (Max32 (fst (co_offset off) + (2 - ?d)) 2)
                           (snd (co_offset off) + (2 - ?d)))\<rparr>) ?given"
    have h: "hscroll t" and fw: "displayWidth rw front > ?mw - 2"
      using left(2) by (simp_all add: trims_left_def front_def)
    have tr: "printHighlighted_trim rw maxx t item bold col2 current = Some (?txt, ?offs)"
      unfolding kept_def front_def using left(1) assms(3) left(2) by (rule trim_left)
    note b = match_end_bounds [OF assms(3)]
    have lk: "match_end item \<le> int (length kept)"
      using b by (simp add: kept_def front_def len_def)
    have o: "0 \<le> fst (co_offset c) \<and> fst (co_offset c) \<le> snd (co_offset c)
        \<and> snd (co_offset c) \<le> len ?txt" if "c \<in> set ?offs" for c
    proof -
      from in_map_update [OF that] obtain c0 where c0: "c0 \<in> set ?given"
        and c: "co_offset c = (Max32 (fst (co_offset c0) + (2 - ?d)) 2,
                     Max32 (Max32 (fst (co_offset c0) + (2 - ?d)) 2)
                           (snd (co_offset c0) + (2 - ?d)))"
        by blast
      note w = wf_colorOffsets [OF assms(3) c0]
      from w(3) lk have "snd (co_offset c0) \<le> int (length kept)"
        by simp
      from left_offsets [OF w(1,2) this, of rw "?mw - 2"] c show ?thesis
        by simp
    qed
    have le: "\<forall>off\<in>set ?offs. fst (co_offset off) \<le> snd (co_offset off)"
      using o by blast
    from printHighlighted_whole [OF tr le] obtain prints where p:
      "printHighlighted rw maxx t item bold col1 col2 current = Some prints"
      "painted prints = fst (processTabs rw ?txt 0)"
      by blast
    have "displayWidth rw kept > ?mw - 2"
      unfolding kept_def front_def
      using left_kept_width [OF assms(1,2) left(1), of "nat (match_end item)"] fw
      by (simp add: front_def)
    then have w: "2 \<le> ?mw \<Longrightarrow> displayWidth rw ?txt \<le> ?mw"
      using left_width [OF assms(1,2)] by blast
    from tr p left nf h w o show ?thesis
      by (intro exI [of _ ?txt] exI [of _ ?offs] exI [of _ prints]) blast
  qed
qed

text \<open>A table that holds only answers of the library keeps doing so, and
  \<^verbatim>\<open>runeWidth\<close> with the table returns what \<open>runeWidth\<close> without it returns.\<close>

lemma runeWidth_memo:
  assumes "\<forall>r w. tab r = Some w \<longrightarrow> w = rw r"
  shows "fst (runeWidth_memo rw tab r p) = runeWidth rw r p"
    and "\<forall>r' w. snd (runeWidth_memo rw tab r p) r' = Some w \<longrightarrow> w = rw r'"
  using assms by (auto simp: runeWidth_memo_def runeWidth_def Let_def split: option.splits)

lemma go_rem_simps: "go_rem 0 8 = 0" "go_rem 1 8 = 1" "go_rem 8 8 = 0"
  by (simp_all add: go_rem_def)

lemma demo_RuneWidth_values:
  "demo_RuneWidth 46 = 1" "demo_RuneWidth 32 = 1"
  "demo_RuneWidth 97 = 1" "demo_RuneWidth 98 = 1" "demo_RuneWidth 99 = 1" "demo_RuneWidth 100 = 1"
  "demo_RuneWidth 101 = 1" "demo_RuneWidth 102 = 1" "demo_RuneWidth 103 = 1" "demo_RuneWidth 104 = 1"
  "demo_RuneWidth 105 = 1" "demo_RuneWidth 106 = 1" "demo_RuneWidth 107 = 1" "demo_RuneWidth 108 = 1"
  by (simp_all add: demo_RuneWidth_def)

lemma demo_RuneWidth_nonneg: "\<forall>r. 0 \<le> demo_RuneWidth r"
  by (simp add: demo_RuneWidth_def)

text \<open>
  C1, as stated: for every item wider than \<open>maxWidth\<close> the truncated text is at most
  \<open>maxWidth\<close> columns wide, and every adjusted offset ends within the truncated text.
  Neither holds. On a screen of 10 columns (\<open>maxWidth = 7\<close>), without horizontal
  scrolling: the text tab, \<^verbatim>\<open>a\<close>, \<^verbatim>\<open>b\<close> is 10 columns wide; \<^verbatim>\<open>trimRight\<close>
  always keeps the first rune, here the tab of 8 columns, and the text painted, the tab
  and \<^verbatim>\<open>..\<close>, is 10 columns wide. And the text \<^verbatim>\<open>a\<close>, tab, \<^verbatim>\<open>bcdefgh\<close> with the
  match offset \<open>(5, 6)\<close> is cut to \<^verbatim>\<open>a..\<close>, three runes, while the adjusted offset
  is still \<open>(5, 6)\<close>: its bounds are clamped to the columns 5 and 7, not to the number
  of runes kept.
\<close>

theorem truncated_text_too_wide:
  "displayWidth demo_RuneWidth (item_text tab_first_item) = 10
   \<and> printHighlighted_trim demo_RuneWidth 10 (demo_terminal\<lparr>hscroll := False\<rparr>) tab_first_item False 2 False
        = Some ([9, 46, 46], [])
   \<and> displayWidth demo_RuneWidth [9, 46, 46] = 10
   \<and> printHighlighted demo_RuneWidth 10 (demo_terminal\<lparr>hscroll := False\<rparr>) tab_first_item False 1 2 False
        = Some [(1, False, replicate 8 32 @ [46, 46])]
   \<and> displayWidth demo_RuneWidth (item_text tab_second_item) = 15
   \<and> printHighlighted_trim demo_RuneWidth 10 (demo_terminal\<lparr>hscroll := False\<rparr>) tab_second_item False 2 False
        = Some ([97, 46, 46], [\<lparr> co_offset = (5, 6), co_color = 2, co_bold = False \<rparr>])
   \<and> len [97 :: int, 46, 46] = 3"
  by (simp add: printHighlighted_def printHighlighted_trim_def printHighlighted_paint_def
      tab_first_item_def tab_second_item_def text_item_def displayWidth_def runeWidth_def
      go_rem_simps demo_RuneWidth_values trimRight_def colorOffsets_def Min32_def len_def
      processTabs_def slice_def Let_def)

text \<open>Twelve letters with two matches on a screen of 10 columns, without and with
  horizontal scrolling.\<close>

theorem truncated_text_witness:
  "(\<forall>r. 0 \<le> demo_RuneWidth r) \<and> demo_RuneWidth 46 = 1 \<and> wf_offsets letters_item
   \<and> displayWidth demo_RuneWidth (item_text letters_item) > 10 - 3 \<and> (2 :: int) \<le> 10 - 3
   \<and> runeWidth demo_RuneWidth (hd (item_text letters_item)) 0 \<le> 10 - 3 - 2
   \<and> narrow demo_RuneWidth (item_text letters_item)
   \<and> printHighlighted_trim demo_RuneWidth 10 (demo_terminal\<lparr>hscroll := False\<rparr>) letters_item False 2 False
        = Some ([97, 98, 99, 100, 101, 46, 46],
                [\<lparr> co_offset = (5, 6), co_color = 2, co_bold = False \<rparr>,
                 \<lparr> co_offset = (5, 7), co_color = 2, co_bold = False \<rparr>])
   \<and> displayWidth demo_RuneWidth [97, 98, 99, 100, 101, 46, 46] \<le> 10 - 3
   \<and> trims_left demo_RuneWidth 10 demo_terminal letters_item
   \<and> printHighlighted_trim demo_RuneWidth 10 demo_terminal letters_item False 2 False
        = Some ([46, 46, 104, 105, 106, 107, 108],
                [\<lparr> co_offset = (2, 2), co_color = 2, co_bold = False \<rparr>,
                 \<lparr> co_offset = (3, 6), co_color = 2, co_bold = False \<rparr>])
   \<and> displayWidth demo_RuneWidth [46, 46, 104, 105, 106, 107, 108] \<le> 10 - 3
   \<and> displayWidth demo_RuneWidth (item_text letters_item) \<le> 80 - 3
   \<and> printHighlighted_trim demo_RuneWidth 80 demo_terminal letters_item False 2 False
        = Some (item_text letters_item, colorOffsets letters_item 2 False False)"
proof -
  let ?u = "demo_terminal\<lparr>hscroll := False\<rparr>"
  have n: "\<forall>r. 0 \<le> demo_RuneWidth r" and d: "demo_RuneWidth 46 = 1"
    by (simp_all add: demo_RuneWidth_def)
  have w: "wf_offsets letters_item"
    by (simp add: wf_offsets_def letters_item_def text_item_def len_def)
  have f: "displayWidth demo_RuneWidth (item_text letters_item) > 10 - 3"
    by (simp add: letters_item_def text_item_def displayWidth_def runeWidth_def
        demo_RuneWidth_values)
  have h: "runeWidth demo_RuneWidth (hd (item_text letters_item)) 0 \<le> 10 - 3 - 2"
    by (simp add: letters_item_def text_item_def runeWidth_def demo_RuneWidth_values)
  have a: "narrow demo_RuneWidth (item_text letters_item)"
    by (simp add: narrow_def letters_item_def text_item_def demo_RuneWidth_values)
  have t1: "printHighlighted_trim demo_RuneWidth 10 ?u letters_item False 2 False
        = Some ([97, 98, 99, 100, 101, 46, 46],
                [\<lparr> co_offset = (5, 6), co_color = 2, co_bold = False \<rparr>,
                 \<lparr> co_offset = (5, 7), co_color = 2, co_bold = False \<rparr>])"
    by (simp add: printHighlighted_trim_def letters_item_def text_item_def displayWidth_def
        runeWidth_def demo_RuneWidth_values trimRight_def colorOffsets_def Min32_def len_def
        Let_def)
  have l: "trims_left demo_RuneWidth 10 demo_terminal letters_item"
    by (simp add: trims_left_def match_end_def letters_item_def text_item_def displayWidth_def
        runeWidth_def demo_RuneWidth_values demo_terminal_fields)
  have t2: "printHighlighted_trim demo_RuneWidth 10 demo_terminal letters_item False 2 False
        = Some ([46, 46, 104, 105, 106, 107, 108],
                [\<lparr> co_offset = (2, 2), co_color = 2, co_bold = False \<rparr>,
                 \<lparr> co_offset = (3, 6), co_color = 2, co_bold = False \<rparr>])"
    by (simp add: printHighlighted_trim_def letters_item_def text_item_def displayWidth_def
        runeWidth_def demo_RuneWidth_values trimLeft_def displayWidthWithLimit_def
        colorOffsets_def Max32_def len_def slice_def Let_def demo_terminal_fields)
  from truncated_text [OF n d w, of 10 ?u False 2 False 1] t1 f h
  have w1: "displayWidth demo_RuneWidth [97, 98, 99, 100, 101, 46, 46] \<le> 10 - 3"
    by auto
  from truncated_text [OF n d w, of 10 demo_terminal False 2 False 1] t2 f l
  have w2: "displayWidth demo_RuneWidth [46, 46, 104, 105, 106, 107, 108] \<le> 10 - 3"
    by auto
  have g: "displayWidth demo_RuneWidth (item_text letters_item) \<le> 80 - 3"
    by (simp add: letters_item_def text_item_def displayWidth_def runeWidth_def
        demo_RuneWidth_values)
  from truncated_text [OF n d w, of 80 demo_terminal False 2 False 1] g
  have t3: "printHighlighted_trim demo_RuneWidth 80 demo_terminal letters_item False 2 False
        = Some (item_text letters_item, colorOffsets letters_item 2 False False)"
    by auto
  from n d w f h a t1 l t2 w1 w2 g t3 show ?thesis
    by simp
qed

end
